theory Spec2Isabelle
  imports Main
begin

section \<open>Python values and errors\<close>

text \<open>
  Exceptions of the Python source are values: a computation that can raise returns
  \<open>py_error + 'a\<close>, with \<open>Inl\<close> carrying the exception class. \<open>NotModelled\<close> is
  not an exception: it marks the few inputs on which the model says nothing.
\<close>

datatype py_error = KeyError | IndexError | TypeError | ValueError | AttributeError
  | NameError | ImportError | NotModelled

definition ebind :: "py_error + 'a \<Rightarrow> ('a \<Rightarrow> py_error + 'b) \<Rightarrow> py_error + 'b" where
  "ebind m f = (case m of Inl e \<Rightarrow> Inl e | Inr x \<Rightarrow> f x)"

lemma ebind_simps [simp, code]:
  "ebind (Inl e) f = Inl e"
  "ebind (Inr x) f = f x"
  by (simp_all add: ebind_def)

lemma ebind_cong [fundef_cong]:
  "m = m' \<Longrightarrow> (\<And>x. m' = Inr x \<Longrightarrow> f x = f' x) \<Longrightarrow> ebind m f = ebind m' f'"
  by (cases m') simp_all

lemma ebind_eq_Inr: "ebind m f = Inr y \<longleftrightarrow> (\<exists>x. m = Inr x \<and> f x = Inr y)"
  by (cases m) simp_all

section \<open>models.py: the nullable annotation of pydantic schemas\<close>

subsection \<open>Schema dictionaries\<close>

text \<open>
  A schema is the nested \<open>dict\<close>/\<open>list\<close> structure that \<open>BaseModel.schema()\<close> returns.
  Dictionaries keep insertion order and are association lists; keys are property names or,
  for the positional arguments of a callable, integers.
\<close>

datatype key = KStr string | KInt nat

datatype json = JNull | JBool bool | JInt int | JStr string
  | JList "json list" | JObj "(key \<times> json) list"

type_synonym pydict = "(key \<times> json) list"

text \<open>\<open>d[k] = v\<close>: an existing key keeps its position, a new key goes last.\<close>

fun dict_set :: "('k \<times> 'v) list \<Rightarrow> 'k \<Rightarrow> 'v \<Rightarrow> ('k \<times> 'v) list" where
  "dict_set [] k v = [(k, v)]"
| "dict_set ((k', v') # kvs) k v =
     (if k' = k then (k, v) # kvs else (k', v') # dict_set kvs k v)"

definition dict_del :: "('k \<times> 'v) list \<Rightarrow> 'k \<Rightarrow> ('k \<times> 'v) list" where
  "dict_del kvs k = filter (\<lambda>kv. fst kv \<noteq> k) kvs"

fun str_contains :: "string \<Rightarrow> string \<Rightarrow> bool" where
  "str_contains sub [] = (sub = [])"
| "str_contains sub (c # cs) = (take (length sub) (c # cs) = sub \<or> str_contains sub cs)"

text \<open>\<open>k in value\<close> for a string \<open>k\<close>, on any value.\<close>

fun py_contains :: "string \<Rightarrow> json \<Rightarrow> py_error + bool" where
  "py_contains k (JObj kvs) = Inr (map_of kvs (KStr k) \<noteq> None)"
| "py_contains k (JList xs) = Inr (JStr k \<in> set xs)"
| "py_contains k (JStr s) = Inr (str_contains k s)"
| "py_contains k _ = Inl TypeError"

text \<open>\<open>value[k]\<close>.\<close>

fun py_getitem :: "json \<Rightarrow> key \<Rightarrow> py_error + json" where
  "py_getitem (JObj kvs) k = (case map_of kvs k of None \<Rightarrow> Inl KeyError | Some v \<Rightarrow> Inr v)"
| "py_getitem (JList xs) (KInt i) = (if i < length xs then Inr (xs ! i) else Inl IndexError)"
| "py_getitem (JStr s) (KInt i) = (if i < length s then Inr (JStr [s ! i]) else Inl IndexError)"
| "py_getitem _ _ = Inl TypeError"

text \<open>\<open>value[k] = v\<close> for a string \<open>k\<close>.\<close>

fun py_setitem :: "json \<Rightarrow> string \<Rightarrow> json \<Rightarrow> py_error + json" where
  "py_setitem (JObj kvs) k v = Inr (JObj (dict_set kvs (KStr k) v))"
| "py_setitem _ k v = Inl TypeError"

text \<open>\<open>value.pop(k)\<close> for a string \<open>k\<close>: the popped entry and the remaining value.\<close>

fun py_pop :: "json \<Rightarrow> string \<Rightarrow> py_error + (json \<times> json)" where
  "py_pop (JObj kvs) k =
     (case map_of kvs (KStr k) of None \<Rightarrow> Inl KeyError
      | Some v \<Rightarrow> Inr (v, JObj (dict_del kvs (KStr k))))"
| "py_pop (JList xs) k = Inl TypeError"
| "py_pop _ k = Inl AttributeError"

text \<open>
  The source mutates a child in place; the model computes the new child and stores it
  where it was read. A string cannot be mutated, so its characters are never replaced.
\<close>

fun write_back :: "json \<Rightarrow> key \<Rightarrow> json \<Rightarrow> json" where
  "write_back (JObj kvs) k v = JObj (dict_set kvs k v)"
| "write_back (JList xs) (KInt i) v = JList (xs[i := v])"
| "write_back j _ _ = j"

definition top_lookup :: "json \<Rightarrow> string \<Rightarrow> json option" where
  "top_lookup v k = (case v of JObj kvs \<Rightarrow> map_of kvs (KStr k) | _ \<Rightarrow> None)"

subsection \<open>Field descriptors\<close>

text \<open>
  \<open>pydantic.fields.ModelField\<close>, as far as \<open>add_nullable\<close> reads it: \<open>allow_none\<close>,
  \<open>type_\<close> (for \<open>issubclass\<close> and the title), \<open>sub_fields\<close> (\<open>None\<close>, a list or a tuple),
  and the \<open>args_field\<close> and \<open>ret_field\<close> of a callable.
\<close>

datatype ftype = PydModel "string option" string | OtherClass | NotAClass

datatype field = Field (allow_none: bool) (field_type: ftype)
  (sub_fields: "field list option") (sub_fields_is_tuple: bool)
  (args_field: "field option") (ret_field: "field option")

text \<open>\<open>issubclass(field.type_, PydanticBaseModel)\<close> raises on a non-class.\<close>

fun issubclass_model :: "ftype \<Rightarrow> py_error + bool" where
  "issubclass_model (PydModel t n) = Inr True"
| "issubclass_model OtherClass = Inr False"
| "issubclass_model NotAClass = Inl TypeError"

text \<open>\<open>field.type_.__config__.title or field.type_.__name__\<close>.\<close>

fun model_title :: "ftype \<Rightarrow> string" where
  "model_title (PydModel (Some t) n) = (if t = [] then n else t)"
| "model_title (PydModel None n) = n"
| "model_title _ = []"

subsection \<open>\<open>add_nullable_subroutine\<close>\<close>

definition drop_null_type :: "json \<Rightarrow> py_error + json" where
  "drop_null_type v =
     ebind (py_contains ''type'' v) (\<lambda>b.
       if b then ebind (py_getitem v (KStr ''type'')) (\<lambda>t.
         if t = JStr ''null'' then ebind (py_pop v ''type'') (\<lambda>r. Inr (snd r)) else Inr v)
       else Inr v)"

text \<open>The \<open>$ref\<close> rewrite under \<open>if field.allow_none:\<close>.\<close>

definition ref_to_anyOf :: "ftype \<Rightarrow> json \<Rightarrow> py_error + json" where
  "ref_to_anyOf ty v =
     ebind (py_contains ''$ref'' v) (\<lambda>b.
       if b then
         ebind (issubclass_model ty) (\<lambda>m.
         ebind (if m then py_setitem v ''title'' (JStr (model_title ty)) else Inr v) (\<lambda>v1.
         ebind (py_pop v1 ''$ref'') (\<lambda>r.
         py_setitem (snd r) ''anyOf'' (JList [JObj [(KStr ''$ref'', fst r)]]))))
       else Inr v)"

definition mark_nullable :: "ftype \<Rightarrow> json \<Rightarrow> py_error + json" where
  "mark_nullable ty v =
     ebind (ref_to_anyOf ty v) (\<lambda>v2. py_setitem v2 ''nullable'' (JBool True))"

definition is_object_with :: "string \<Rightarrow> json \<Rightarrow> py_error + bool" where
  "is_object_with k v =
     ebind (py_contains ''type'' v) (\<lambda>b.
       if \<not> b then Inr False
       else ebind (py_getitem v (KStr ''type'')) (\<lambda>t.
         if t \<noteq> JStr ''object'' then Inr False else py_contains k v))"

text \<open>
  The \<open>if\<close>/\<open>elif\<close> chain under \<open>if field.sub_fields:\<close> picks the key to descend into and
  whether every sub-field is walked by position (\<open>True\<close>) or only the first one.
\<close>

definition sub_field_branch :: "json \<Rightarrow> bool \<Rightarrow> py_error + (string \<times> bool) option" where
  "sub_field_branch v process_all =
     ebind (is_object_with ''additionalProperties'' v) (\<lambda>c1.
       if c1 then Inr (Some (''additionalProperties'', process_all))
       else ebind (is_object_with ''properties'' v) (\<lambda>c2.
         if c2 then Inr (Some (''properties'', process_all))
         else ebind (py_contains ''anyOf'' v) (\<lambda>c3.
           if c3 then Inr (Some (''anyOf'', True))
           else ebind (py_contains ''items'' v) (\<lambda>c4.
             if c4 then Inr (Some (''items'', False)) else Inr None))))"

function (sequential)
  add_nullable_subroutine :: "field \<Rightarrow> json \<Rightarrow> bool \<Rightarrow> py_error + json"
and walk_sub_fields :: "field list \<Rightarrow> json \<Rightarrow> bool \<Rightarrow> py_error + json"
and sub_each :: "string \<Rightarrow> field list \<Rightarrow> nat \<Rightarrow> json \<Rightarrow> bool \<Rightarrow> py_error + json"
where
  "add_nullable_subroutine (Field an ty sf tup af rf) value0 process_all =
     ebind (drop_null_type value0) (\<lambda>value1.
     ebind (if an then mark_nullable ty value1 else Inr value1) (\<lambda>value2.
     ebind (walk_sub_fields (case sf of None \<Rightarrow> [] | Some fs \<Rightarrow> fs) value2 process_all)
       (\<lambda>value3.
     ebind (case af of
              None \<Rightarrow> Inr value3
            | Some a \<Rightarrow>
                if sub_fields_is_tuple a \<and> sub_fields a = Some [] then
                  ebind (py_getitem value3 (KStr ''properties'')) (\<lambda>p.
                  ebind (py_pop p ''args'') (\<lambda>r.
                  Inr (write_back value3 (KStr ''properties'') (snd r))))
                else if sub_fields a = None then
                  ebind (py_getitem value3 (KStr ''properties'')) (\<lambda>p.
                  ebind (py_setitem p ''args'' (JObj [(KStr ''type'', JStr ''object'')])) (\<lambda>p'.
                  Inr (write_back value3 (KStr ''properties'') p')))
                else
                  ebind (py_getitem value3 (KStr ''properties'')) (\<lambda>p.
                  ebind (py_getitem p (KStr ''args'')) (\<lambda>c.
                  ebind (add_nullable_subroutine a c True) (\<lambda>c'.
                  Inr (write_back value3 (KStr ''properties'')
                         (write_back p (KStr ''args'') c'))))))
       (\<lambda>value4.
     (case rf of
        None \<Rightarrow> Inr value4
      | Some r \<Rightarrow>
          ebind (py_getitem value4 (KStr ''properties'')) (\<lambda>p.
          ebind (py_getitem p (KStr ''retval'')) (\<lambda>c.
          ebind (add_nullable_subroutine r c True) (\<lambda>c'.
          Inr (write_back value4 (KStr ''properties'')
                 (write_back p (KStr ''retval'') c'))))))))))"
| "walk_sub_fields [] v process_all = Inr v"
| "walk_sub_fields (s0 # ss) v process_all =
     ebind (sub_field_branch v process_all) (\<lambda>br.
       case br of
         None \<Rightarrow> Inr v
       | Some (k, each) \<Rightarrow>
           if each then sub_each k (s0 # ss) 0 v process_all
           else ebind (py_getitem v (KStr k)) (\<lambda>c.
                ebind (add_nullable_subroutine s0 c process_all) (\<lambda>c'.
                Inr (write_back v (KStr k) c'))))"
| "sub_each k [] i v process_all = Inr v"
| "sub_each k (s # ss) i v process_all =
     ebind (py_getitem v (KStr k)) (\<lambda>cont.
     ebind (py_getitem cont (KInt i)) (\<lambda>c.
     ebind (add_nullable_subroutine s c process_all) (\<lambda>c'.
     sub_each k ss (Suc i)
       (write_back v (KStr k) (write_back cont (KInt i) c')) process_all)))"
  by pat_completeness auto
termination
  by (relation "measure (\<lambda>x. case x of
         Inl (f, _) \<Rightarrow> 3 * size f
       | Inr (Inl (fs, _)) \<Rightarrow> 3 * size_list size fs + 2
       | Inr (Inr (_, fs, _)) \<Rightarrow> 3 * size_list size fs + 1)")
     (auto split: option.splits)

text \<open>\<open>add_nullable\<close>: every property of the schema, with the field of the same alias.\<close>

definition is_function_node :: "json \<Rightarrow> py_error + bool" where
  "is_function_node v =
     ebind (py_contains ''x-type'' v) (\<lambda>b.
       if b then ebind (py_getitem v (KStr ''x-type'')) (\<lambda>t. Inr (t = JStr ''function''))
       else Inr False)"

fun add_nullable_items :: "(string \<times> field) list \<Rightarrow> pydict \<Rightarrow> py_error + pydict" where
  "add_nullable_items fields [] = Inr []"
| "add_nullable_items fields ((prop, v) # rest) =
     (case filter (\<lambda>x. KStr (fst x) = prop) fields of
        [] \<Rightarrow> Inl IndexError
      | x # _ \<Rightarrow>
          ebind (is_function_node v) (\<lambda>pa.
          ebind (add_nullable_subroutine (snd x) v pa) (\<lambda>v'.
          ebind (add_nullable_items fields rest) (\<lambda>rest'.
          Inr ((prop, v') # rest')))))"

definition add_nullable :: "pydict \<Rightarrow> (string \<times> field) list \<Rightarrow> py_error + pydict" where
  "add_nullable schema fields =
     (case map_of schema (KStr ''properties'') of
        None \<Rightarrow> Inr schema
      | Some (JObj props) \<Rightarrow>
          ebind (add_nullable_items fields props) (\<lambda>props'.
          Inr (dict_set schema (KStr ''properties'') (JObj props')))
      | Some _ \<Rightarrow> Inl AttributeError)"


subsection \<open>The callable steps, and the test models\<close>

text \<open>
  The two last statements of \<open>add_nullable_subroutine\<close> (the \<open>args_field\<close> chain and the
  \<open>ret_field\<close> walk), named so that the properties below can speak about them.
\<close>

definition args_step :: "field option \<Rightarrow> json \<Rightarrow> py_error + json" where
  "args_step af value3 =
     (case af of
        None \<Rightarrow> Inr value3
      | Some a \<Rightarrow>
          if sub_fields_is_tuple a \<and> sub_fields a = Some [] then
            ebind (py_getitem value3 (KStr ''properties'')) (\<lambda>p.
            ebind (py_pop p ''args'') (\<lambda>r.
            Inr (write_back value3 (KStr ''properties'') (snd r))))
          else if sub_fields a = None then
            ebind (py_getitem value3 (KStr ''properties'')) (\<lambda>p.
            ebind (py_setitem p ''args'' (JObj [(KStr ''type'', JStr ''object'')])) (\<lambda>p'.
            Inr (write_back value3 (KStr ''properties'') p')))
          else
            ebind (py_getitem value3 (KStr ''properties'')) (\<lambda>p.
            ebind (py_getitem p (KStr ''args'')) (\<lambda>c.
            ebind (add_nullable_subroutine a c True) (\<lambda>c'.
            Inr (write_back value3 (KStr ''properties'')
                   (write_back p (KStr ''args'') c'))))))"

definition ret_step :: "field option \<Rightarrow> json \<Rightarrow> py_error + json" where
  "ret_step rf value4 =
     (case rf of
        None \<Rightarrow> Inr value4
      | Some r \<Rightarrow>
          ebind (py_getitem value4 (KStr ''properties'')) (\<lambda>p.
          ebind (py_getitem p (KStr ''retval'')) (\<lambda>c.
          ebind (add_nullable_subroutine r c True) (\<lambda>c'.
          Inr (write_back value4 (KStr ''properties'')
                 (write_back p (KStr ''retval'') c'))))))"

text \<open>Reading a nested entry, as \<open>util.dget\<close> does in the tests (\<open>None\<close> when absent).\<close>

fun at_path :: "json \<Rightarrow> key list \<Rightarrow> json option" where
  "at_path v [] = Some v"
| "at_path v (k # ks) =
     (case py_getitem v k of Inl e \<Rightarrow> None | Inr c \<Rightarrow> at_path c ks)"

text \<open>
  \<open>YourModel\<close> of \<open>test_fix_nullable\<close>. The field descriptors and the schema before
  \<open>schema_extra\<close> runs are what pydantic hands to \<open>add_nullable\<close>: a union is flattened,
  so \<open>Union[int, Optional[str]]\<close> allows none itself and has the sub-fields \<open>int\<close> and
  \<open>str\<close>; a \<open>Dict\<close> field has its value type as only sub-field.
\<close>

definition leaf_field :: "bool \<Rightarrow> field" where
  "leaf_field an = Field an OtherClass None False None None"

definition YourModel_fields :: "(string \<times> field) list" where
  "YourModel_fields =
     [(''a_int'', leaf_field False),
      (''n_a_int'', leaf_field True),
      (''str_int_union'',
         Field True NotAClass (Some [leaf_field False, leaf_field False]) False None None),
      (''obj_int_union'',
         Field False NotAClass
           (Some [leaf_field False,
                  Field False NotAClass (Some [leaf_field True]) False None None])
           False None None)]"

definition YourModel_raw_schema :: pydict where
  "YourModel_raw_schema =
     [(KStr ''title'', JStr ''YourModel''),
      (KStr ''type'', JStr ''object''),
      (KStr ''properties'', JObj
        [(KStr ''a_int'',
            JObj [(KStr ''title'', JStr ''A Int''), (KStr ''type'', JStr ''integer'')]),
         (KStr ''n_a_int'',
            JObj [(KStr ''title'', JStr ''N A Int''), (KStr ''type'', JStr ''integer'')]),
         (KStr ''str_int_union'', JObj [(KStr ''title'', JStr ''Str Int Union''),
            (KStr ''anyOf'', JList [JObj [(KStr ''type'', JStr ''integer'')],
                                    JObj [(KStr ''type'', JStr ''string'')]])]),
         (KStr ''obj_int_union'', JObj [(KStr ''title'', JStr ''Obj Int Union''),
            (KStr ''anyOf'', JList [JObj [(KStr ''type'', JStr ''integer'')],
                                    JObj [(KStr ''type'', JStr ''object''),
                                          (KStr ''additionalProperties'',
                                             JObj [(KStr ''type'', JStr ''integer'')])]])])]),
      (KStr ''required'', JList [JStr ''a_int'', JStr ''obj_int_union''])]"

definition YourModel_schema :: pydict where
  "YourModel_schema =
     [(KStr ''title'', JStr ''YourModel''),
      (KStr ''type'', JStr ''object''),
      (KStr ''properties'', JObj
        [(KStr ''a_int'',
            JObj [(KStr ''title'', JStr ''A Int''), (KStr ''type'', JStr ''integer'')]),
         (KStr ''n_a_int'',
            JObj [(KStr ''title'', JStr ''N A Int''), (KStr ''type'', JStr ''integer''),
                  (KStr ''nullable'', JBool True)]),
         (KStr ''str_int_union'', JObj [(KStr ''title'', JStr ''Str Int Union''),
            (KStr ''anyOf'', JList [JObj [(KStr ''type'', JStr ''integer'')],
                                    JObj [(KStr ''type'', JStr ''string'')]]),
            (KStr ''nullable'', JBool True)]),
         (KStr ''obj_int_union'', JObj [(KStr ''title'', JStr ''Obj Int Union''),
            (KStr ''anyOf'', JList [JObj [(KStr ''type'', JStr ''integer'')],
                                    JObj [(KStr ''type'', JStr ''object''),
                                          (KStr ''additionalProperties'',
                                             JObj [(KStr ''type'', JStr ''integer''),
                                                   (KStr ''nullable'', JBool True)])]])])]),
      (KStr ''required'', JList [JStr ''a_int'', JStr ''obj_int_union''])]"

text \<open>
  Callable fields, as the conditions of \<open>add_nullable_subroutine\<close> read them: an empty
  argument list is an \<open>args_field\<close> whose \<open>sub_fields\<close> is the empty tuple, \<open>...\<close> is an
  \<open>args_field\<close> whose \<open>sub_fields\<close> is \<open>None\<close>, and a \<open>None\<close> return type is a
  \<open>ret_field\<close> that allows none. The node before annotation has \<open>x-type: function\<close> and
  the properties \<open>args\<close> (keyed by position) and \<open>retval\<close>.
\<close>

definition callable_field :: "field list option \<Rightarrow> field" where
  "callable_field args =
     Field False NotAClass None False
       (Some (Field False NotAClass args True None None)) (Some (leaf_field True))"

definition callable_raw :: "pydict \<Rightarrow> json" where
  "callable_raw arg_props =
     JObj [(KStr ''title'', JStr ''Func''), (KStr ''type'', JStr ''object''),
           (KStr ''x-type'', JStr ''function''),
           (KStr ''properties'', JObj
              [(KStr ''args'', JObj [(KStr ''type'', JStr ''object''),
                                     (KStr ''properties'', JObj arg_props)]),
               (KStr ''retval'', JObj [(KStr ''type'', JStr ''null'')])])]"

definition two_int_args :: pydict where
  "two_int_args = [(KInt 0, JObj [(KStr ''type'', JStr ''integer'')]),
                   (KInt 1, JObj [(KStr ''type'', JStr ''integer'')])]"

section \<open>Python strings and regular expressions\<close>

text \<open>
  The string methods and the \<open>re\<close> functions the sources call. A string is a list of
  characters with the code points \<open>0\<close> to \<open>255\<close>, and a character is whitespace, a line
  boundary, alphanumeric or cased as Python's Unicode tables say for that code point:
  \<open>str.isspace\<close>, \<open>str.strip\<close> and the class \<open>\s\<close> take \<open>U+0085\<close> and \<open>U+00A0\<close> for
  whitespace, \<open>str.splitlines\<close> breaks at \<open>U+0085\<close>, and \<open>\w\<close> and \<open>str.lower\<close> know the
  letters from \<open>U+00AA\<close> on. The classes \<open>[a-zA-Z]\<close> and \<open>[a-zA-Z0-9]\<close> are the ASCII ones.
\<close>

subsection \<open>String methods\<close>

definition ascii_lowercase :: string where
  "ascii_lowercase = ''abcdefghijklmnopqrstuvwxyz''"

definition ascii_uppercase :: string where
  "ascii_uppercase = ''ABCDEFGHIJKLMNOPQRSTUVWXYZ''"

definition ascii_digits :: string where
  "ascii_digits = ''0123456789''"

definition isspace :: "char \<Rightarrow> bool" where
  "isspace c = (c \<in> set [CHR '' '', CHR 0x09, CHR 0x0A, CHR 0x0B, CHR 0x0C, CHR 0x0D,
                          CHR 0x1C, CHR 0x1D, CHR 0x1E, CHR 0x1F, CHR 0x85, CHR 0xA0])"

text \<open>The classes \<open>[a-zA-Z]\<close> and \<open>[a-zA-Z0-9]\<close>.\<close>

definition ascii_letter :: "char \<Rightarrow> bool" where
  "ascii_letter c = (c \<in> set ascii_lowercase \<or> c \<in> set ascii_uppercase)"

definition ascii_alnum :: "char \<Rightarrow> bool" where
  "ascii_alnum c = (ascii_letter c \<or> c \<in> set ascii_digits)"

text \<open>
  The letters above ASCII: \<open>U+00C0\<close> to \<open>U+00DE\<close> are upper case and \<open>U+00DF\<close> to
  \<open>U+00FF\<close> lower case, without the signs \<open>U+00D7\<close> and \<open>U+00F7\<close>; \<open>U+00AA\<close>, \<open>U+00B5\<close>
  and \<open>U+00BA\<close> are lower case too. \<open>U+00B2\<close>, \<open>U+00B3\<close>, \<open>U+00B9\<close> are digits and
  \<open>U+00BC\<close> to \<open>U+00BE\<close> numeric.
\<close>

definition latin_letter :: "char \<Rightarrow> bool" where
  "latin_letter c =
     (let n = (of_char c :: nat) in
      n = 0xAA \<or> n = 0xB5 \<or> n = 0xBA \<or> (0xC0 \<le> n \<and> n \<noteq> 0xD7 \<and> n \<noteq> 0xF7))"

definition latin_number :: "char \<Rightarrow> bool" where
  "latin_number c =
     (let n = (of_char c :: nat) in
      n = 0xB2 \<or> n = 0xB3 \<or> n = 0xB9 \<or> n = 0xBC \<or> n = 0xBD \<or> n = 0xBE)"

definition isalnum :: "char \<Rightarrow> bool" where
  "isalnum c = (if ascii_alnum c then True else latin_letter c \<or> latin_number c)"

definition iscased :: "char \<Rightarrow> bool" where
  "iscased c = (if ascii_letter c then True else latin_letter c)"

text \<open>
  \<open>str.lower\<close> and \<open>str.upper\<close> on one character. The upper case of \<open>U+00B5\<close>, \<open>U+00DF\<close>
  and \<open>U+00FF\<close> is no character below \<open>256\<close>: these three are left as they are, and a
  text that holds them is outside what \<open>upper\<close> and \<open>title\<close> model.
\<close>

definition ch_lower :: "char \<Rightarrow> char" where
  "ch_lower c =
     (case map_of (zip ascii_uppercase ascii_lowercase) c of
        Some d \<Rightarrow> d
      | None \<Rightarrow>
          (let n = (of_char c :: nat) in
           if 0xC0 \<le> n \<and> n \<le> 0xDE \<and> n \<noteq> 0xD7 then char_of (n + 0x20) else c))"

definition ch_upper :: "char \<Rightarrow> char" where
  "ch_upper c =
     (case map_of (zip ascii_lowercase ascii_uppercase) c of
        Some d \<Rightarrow> d
      | None \<Rightarrow>
          (let n = (of_char c :: nat) in
           if 0xE0 \<le> n \<and> n \<le> 0xFE \<and> n \<noteq> 0xF7 then char_of (n - 0x20) else c))"

definition lower :: "string \<Rightarrow> string" where
  "lower s = map ch_lower s"

definition upper :: "string \<Rightarrow> string" where
  "upper s = map ch_upper s"

text \<open>\<open>s.lstrip(chars)\<close>, \<open>s.rstrip(chars)\<close>, \<open>s.strip(chars)\<close>, and the same without argument.\<close>

definition lstrip_chars :: "string \<Rightarrow> string \<Rightarrow> string" where
  "lstrip_chars chars s = dropWhile (\<lambda>c. c \<in> set chars) s"

definition rstrip_chars :: "string \<Rightarrow> string \<Rightarrow> string" where
  "rstrip_chars chars s = rev (dropWhile (\<lambda>c. c \<in> set chars) (rev s))"

definition strip_chars :: "string \<Rightarrow> string \<Rightarrow> string" where
  "strip_chars chars s = rstrip_chars chars (lstrip_chars chars s)"

definition lstrip :: "string \<Rightarrow> string" where
  "lstrip s = dropWhile isspace s"

definition rstrip :: "string \<Rightarrow> string" where
  "rstrip s = rev (dropWhile isspace (rev s))"

definition strip :: "string \<Rightarrow> string" where
  "strip s = rstrip (lstrip s)"

definition startswith :: "string \<Rightarrow> string \<Rightarrow> bool" where
  "startswith s p = (take (length p) s = p)"

definition endswith :: "string \<Rightarrow> string \<Rightarrow> bool" where
  "endswith s p = (length p \<le> length s \<and> drop (length s - length p) s = p)"

text \<open>\<open>sep.join(xs)\<close>.\<close>

fun join :: "string \<Rightarrow> string list \<Rightarrow> string" where
  "join sep [] = []"
| "join sep [x] = x"
| "join sep (x # y # ys) = x @ sep @ join sep (y # ys)"

text \<open>\<open>s.split(c)\<close> for a one-character separator, and \<open>s.split(c, 1)\<close>.\<close>

fun split :: "char \<Rightarrow> string \<Rightarrow> string list" where
  "split sep [] = [[]]"
| "split sep (c # cs) =
     (if c = sep then [] # split sep cs
      else (case split sep cs of [] \<Rightarrow> [[c]] | p # ps \<Rightarrow> (c # p) # ps))"

definition split1 :: "char \<Rightarrow> string \<Rightarrow> string list" where
  "split1 sep s =
     (if sep \<in> set s then [takeWhile (\<lambda>c. c \<noteq> sep) s, tl (dropWhile (\<lambda>c. c \<noteq> sep) s)]
      else [s])"

text \<open>\<open>s.replace(old, new)\<close> for a non-empty \<open>old\<close>.\<close>

fun replace :: "string \<Rightarrow> string \<Rightarrow> string \<Rightarrow> string" where
  "replace old new [] = []"
| "replace old new (c # cs) =
     (if old \<noteq> [] \<and> take (length old) (c # cs) = old
      then new @ replace old new (drop (length old) (c # cs))
      else c # replace old new cs)"

text \<open>\<open>s.title()\<close>: a cased letter is upper-cased after an uncased character, lower-cased
  after a cased one.\<close>

fun title_from :: "bool \<Rightarrow> string \<Rightarrow> string" where
  "title_from prev_cased [] = []"
| "title_from prev_cased (c # cs) =
     (if iscased c then (if prev_cased then ch_lower c else ch_upper c) # title_from True cs
      else c # title_from False cs)"

definition title :: "string \<Rightarrow> string" where
  "title s = title_from False s"

text \<open>\<open>s.splitlines()\<close>: the line boundaries, with \<open>\r\n\<close> as one.\<close>

definition is_linebreak :: "char \<Rightarrow> bool" where
  "is_linebreak c = (c \<in> set [CHR 0x0A, CHR 0x0D, CHR 0x0B, CHR 0x0C, CHR 0x1C, CHR 0x1D,
                               CHR 0x1E, CHR 0x85])"

fun splitlines_from :: "string \<Rightarrow> string \<Rightarrow> string list" where
  "splitlines_from cur [] = (if cur = [] then [] else [rev cur])"
| "splitlines_from cur (c # cs) =
     (if c = CHR 0x0D \<and> cs \<noteq> [] \<and> hd cs = CHR 0x0A then rev cur # splitlines_from [] (tl cs)
      else if is_linebreak c then rev cur # splitlines_from [] cs
      else splitlines_from (c # cur) cs)"

definition splitlines :: "string \<Rightarrow> string list" where
  "splitlines s = splitlines_from [] s"

subsection \<open>Regular expressions\<close>

text \<open>
  A backtracking matcher with the priorities of Python's \<open>re\<close>: alternatives left to
  right, a greedy repetition tries one more round first, a lazy one tries to stop first.
  The continuation is what remains to be matched; the first success is the match.
\<close>

datatype cls = Ch char | OneOf string | Alnum | Word | Space | NonSpace | Dot | Letter

fun cls_match :: "cls \<Rightarrow> char \<Rightarrow> bool" where
  "cls_match (Ch d) c = (c = d)"
| "cls_match (OneOf ds) c = (c \<in> set ds)"
| "cls_match Alnum c = ascii_alnum c"
| "cls_match Word c = (isalnum c \<or> c = CHR ''_'')"
| "cls_match Space c = isspace c"
| "cls_match NonSpace c = (\<not> isspace c)"
| "cls_match Dot c = (c \<noteq> CHR 0x0A)"
| "cls_match Letter c = ascii_letter c"

datatype rx = Lit cls | Eps | Seq rx rx | Alt rx rx | Star rx | LazyStar rx | Group nat rx
  | Bol | Eol | NotBehind cls | NotAhead cls

text \<open>The state of a match: the character before the position, the text from the position
  on, and the groups captured so far (the latest first).\<close>

record mstate =
  st_prev :: "char option"
  st_rest :: string
  st_caps :: "(nat \<times> string) list"

function rx_m :: "rx \<Rightarrow> mstate \<Rightarrow> (mstate \<Rightarrow> mstate option) \<Rightarrow> mstate option" where
  "rx_m (Lit c) st k =
     (case st_rest st of
        [] \<Rightarrow> None
      | x # xs \<Rightarrow> if cls_match c x then k (st\<lparr>st_prev := Some x, st_rest := xs\<rparr>) else None)"
| "rx_m Eps st k = k st"
| "rx_m (Seq a b) st k = rx_m a st (\<lambda>st'. rx_m b st' k)"
| "rx_m (Alt a b) st k = (case rx_m a st k of Some r \<Rightarrow> Some r | None \<Rightarrow> rx_m b st k)"
| "rx_m (Star r) st k =
     (case rx_m r st (\<lambda>st'. if length (st_rest st') < length (st_rest st) then rx_m (Star r) st' k
                              else None) of
        Some x \<Rightarrow> Some x
      | None \<Rightarrow> k st)"
| "rx_m (LazyStar r) st k =
     (case k st of
        Some x \<Rightarrow> Some x
      | None \<Rightarrow> rx_m r st (\<lambda>st'. if length (st_rest st') < length (st_rest st)
                                  then rx_m (LazyStar r) st' k else None))"
| "rx_m (Group n r) st k =
     rx_m r st (\<lambda>st'. k (st'\<lparr>st_caps :=
        (n, take (length (st_rest st) - length (st_rest st')) (st_rest st)) # st_caps st'\<rparr>))"
| "rx_m Bol st k = (if st_prev st = None then k st else None)"
| "rx_m Eol st k = (if st_rest st = [] \<or> st_rest st = [CHR 0x0A] then k st else None)"
| "rx_m (NotBehind c) st k =
     (case st_prev st of Some x \<Rightarrow> if cls_match c x then None else k st | None \<Rightarrow> k st)"
| "rx_m (NotAhead c) st k =
     (case st_rest st of x # xs \<Rightarrow> if cls_match c x then None else k st | [] \<Rightarrow> k st)"
  by pat_completeness auto
termination
  by (relation "inv_image (measure size <*lex*> measure length) (\<lambda>(r, st, k). (r, st_rest st))")
     auto

definition Plus :: "rx \<Rightarrow> rx" where
  "Plus r = Seq r (Star r)"

definition LazyPlus :: "rx \<Rightarrow> rx" where
  "LazyPlus r = Seq r (LazyStar r)"

definition Opt :: "rx \<Rightarrow> rx" where
  "Opt r = Alt r Eps"

fun seqs :: "rx list \<Rightarrow> rx" where
  "seqs [] = Eps"
| "seqs [r] = r"
| "seqs (r # rs) = Seq r (seqs rs)"

text \<open>A match object: the matched text, the text after it, and the groups.\<close>

record rmatch =
  m_text :: string
  m_after :: string
  m_groups :: "(nat \<times> string) list"

definition match_at :: "rx \<Rightarrow> char option \<Rightarrow> string \<Rightarrow> rmatch option" where
  "match_at r p s =
     (case rx_m r \<lparr>st_prev = p, st_rest = s, st_caps = []\<rparr> Some of
        None \<Rightarrow> None
      | Some st \<Rightarrow> Some \<lparr>m_text = take (length s - length (st_rest st)) s, m_after = st_rest st,
                          m_groups = st_caps st\<rparr>)"

text \<open>\<open>re.match(r, s)\<close>.\<close>

definition re_match :: "rx \<Rightarrow> string \<Rightarrow> rmatch option" where
  "re_match r s = match_at r None s"

text \<open>\<open>m.group(n)\<close> of a group that took part in the match.\<close>

definition group :: "rmatch \<Rightarrow> nat \<Rightarrow> string" where
  "group m n = (case map_of (m_groups m) n of Some g \<Rightarrow> g | None \<Rightarrow> [])"

text \<open>\<open>r.search(s)\<close>: the leftmost match, with the text before it.\<close>

fun search_from :: "rx \<Rightarrow> char option \<Rightarrow> string \<Rightarrow> (string \<times> rmatch) option" where
  "search_from r p [] = map_option (Pair []) (match_at r p [])"
| "search_from r p (c # cs) =
     (case match_at r p (c # cs) of
        Some m \<Rightarrow> Some ([], m)
      | None \<Rightarrow> map_option (\<lambda>bm. (c # fst bm, snd bm)) (search_from r (Some c) cs))"

definition re_search :: "rx \<Rightarrow> string \<Rightarrow> (string \<times> rmatch) option" where
  "re_search r s = search_from r None s"

text \<open>
  The successive non-overlapping matches of \<open>r\<close> in \<open>s\<close>, each with the text between it
  and the match pre, and the text after the last one. The patterns of the sources
  match at least one character; a match of the empty string ends the scan.
\<close>

function scan :: "rx \<Rightarrow> char option \<Rightarrow> string \<Rightarrow> (string \<times> rmatch) list \<times> string" where
  "scan r p s =
     (case search_from r p s of
        None \<Rightarrow> ([], s)
      | Some (pre, m) \<Rightarrow>
          if m_text m \<noteq> [] \<and> length (m_after m) < length s
          then (case scan r (Some (last (m_text m))) (m_after m) of
                  (ms, after) \<Rightarrow> ((pre, m) # ms, after))
          else ([], s))"
  by pat_completeness auto
termination
  by (relation "measure (\<lambda>(r, p, s). length s)") auto

declare scan.simps [simp del]

text \<open>\<open>r.findall(s)\<close> for a pattern without groups.\<close>

definition re_findall :: "rx \<Rightarrow> string \<Rightarrow> string list" where
  "re_findall r s = map (\<lambda>bm. m_text (snd bm)) (fst (scan r None s))"

text \<open>\<open>r.split(s)\<close> for a pattern that is one group: the texts between the matches,
  alternating with the matches.\<close>

definition re_split :: "rx \<Rightarrow> string \<Rightarrow> string list" where
  "re_split r s =
     (case scan r None s of
        (ms, after) \<Rightarrow> concat (map (\<lambda>bm. [fst bm, group (snd bm) 1]) ms) @ [after])"

text \<open>\<open>re.sub(r, repl, s)\<close> with the replacement computed from the match, and
  \<open>re.sub(r, repl, s, 1)\<close>.\<close>

definition re_sub :: "rx \<Rightarrow> (rmatch \<Rightarrow> string) \<Rightarrow> string \<Rightarrow> string" where
  "re_sub r repl s =
     (case scan r None s of
        (ms, after) \<Rightarrow> concat (map (\<lambda>bm. fst bm @ repl (snd bm)) ms) @ after)"

definition re_sub1 :: "rx \<Rightarrow> (rmatch \<Rightarrow> string) \<Rightarrow> string \<Rightarrow> string" where
  "re_sub1 r repl s =
     (case re_search r s of
        None \<Rightarrow> s
      | Some (pre, m) \<Rightarrow> pre @ repl m @ m_after m)"

section \<open>docstring.py: the section parser\<close>

subsection \<open>Patterns and section names\<close>

text \<open>\<open>_directive_regex\<close>, \<open>_google_section_regex\<close>, \<open>_google_typed_arg_regex\<close>,
  \<open>_single_colon_regex\<close>, \<open>_xref_regex\<close> and the pattern of \<open>_ref_repl\<close>.\<close>

definition directive_regex :: rx where
  "directive_regex = seqs [Lit (Ch CHR ''.''), Lit (Ch CHR ''.''), Lit (Ch CHR '' ''),
     Plus (Lit NonSpace), Lit (Ch CHR '':''), Lit (Ch CHR '':'')]"

definition google_section_regex :: rx where
  "google_section_regex = seqs [Bol, Plus (Group 1 (Alt (Lit Space) (Lit Word))),
     Lit (Ch CHR '':''), Star (Lit Space), Eol]"

definition google_typed_arg_regex :: rx where
  "google_typed_arg_regex = seqs [Star (Lit Space), Group 1 (LazyPlus (Lit Dot)),
     Star (Lit Space), Lit (Ch CHR ''(''), Star (Lit Space),
     Group 2 (Seq (Star (Lit Dot)) (Plus (Lit NonSpace))), Star (Lit Space),
     Lit (Ch CHR '')'')]"

definition single_colon_regex :: rx where
  "single_colon_regex = seqs [NotBehind (Ch CHR '':''), Lit (Ch CHR '':''),
     NotAhead (Ch CHR '':'')]"

definition xref_regex :: rx where
  "xref_regex = Group 1 (seqs [Lit (Ch CHR '':''),
     Star (Seq (Plus (Lit Alnum)) (Lit (OneOf ''-_+:.''))), Plus (Lit Alnum),
     Lit (Ch CHR '':''), Lit (Ch CHR 0x60), LazyPlus (Lit Dot), Lit (Ch CHR 0x60)])"

definition ref_repl_regex :: rx where
  "ref_repl_regex = seqs [Group 1 (Plus (Lit Dot)),
     Group 2 (seqs [Lit (Ch CHR '':''), Plus (Lit Alnum), Lit (OneOf ''-_+:.'')]),
     Lit (Ch CHR 0x60), Group 3 (LazyPlus (Lit Dot)), Lit (Ch CHR 0x60)]"

definition ref_repl_doc :: "string \<Rightarrow> string" where
  "ref_repl_doc x = re_sub ref_repl_regex (\<lambda>m. group m 3) x"

datatype section_kind = Parameters | Attributes | Examples | KeywordArguments | Methods
  | OtherParameters | Schemas | Maps | Tags | Requests | Responses | Returns

text \<open>The \<open>_sections\<close> dictionary of \<open>__init__\<close>.\<close>

definition sections :: "(string \<times> section_kind) list" where
  "sections =
     [(''args'', Parameters), (''arguments'', Parameters), (''attributes'', Attributes),
      (''example'', Examples), (''examples'', Examples),
      (''keyword args'', KeywordArguments), (''keyword arguments'', KeywordArguments),
      (''methods'', Methods), (''other parameters'', OtherParameters),
      (''parameters'', Parameters), (''schema'', Schemas), (''schemas'', Schemas),
      (''map'', Maps), (''maps'', Maps), (''tag'', Tags), (''tags'', Tags),
      (''request'', Requests), (''requests'', Requests),
      (''response'', Responses), (''responses'', Responses),
      (''return'', Returns), (''returns'', Returns)]"

subsection \<open>The parsed docstring\<close>

text \<open>
  The attributes that parsing sets on the object; \<open>None\<close> is an attribute that was never
  set, which \<open>hasattr\<close> reports as missing.
\<close>

datatype returns_value = ReturnsRef "(string \<times> string) list" | ReturnsLines "string list"

type_synonym doc_field = "string \<times> string \<times> string list"

record gdoc =
  description :: "string option"
  parameters :: "doc_field list option"
  tags :: "string option"
  map_attr :: "string option"
  schemas :: "(string \<times> string list) option"
  requests :: "(string \<times> string list) option"
  responses :: "(string \<times> string) list option"
  returns :: "returns_value option"
  examples :: "(string \<times> string list) option"

definition empty_doc :: gdoc where
  "empty_doc = \<lparr>description = None, parameters = None, tags = None, map_attr = None,
     schemas = None, requests = None, responses = None, returns = None, examples = None\<rparr>"

subsection \<open>Lines and indentation\<close>

text \<open>
  The line iterator is the list of the lines not yet consumed, each already stripped on the
  right as the iterator's modifier does when it hands a line out. A consumer returns the
  lines it took and the lines left. Whether the parser is inside a section and the
  section's indentation (\<open>_is_in_section\<close>, \<open>_section_indent\<close>) are the arguments
  \<open>ins\<close> and \<open>ind\<close>.
\<close>

definition get_indent :: "string \<Rightarrow> nat" where
  "get_indent line = length (takeWhile isspace line)"

fun is_indented :: "string \<Rightarrow> nat \<Rightarrow> bool" where
  "is_indented [] indent = False"
| "is_indented (s # line) indent =
     (if indent = 0 then True else if \<not> isspace s then False else is_indented line (indent - 1))"

text \<open>\<open>_get_current_indent\<close> on the lines from the peeked position on.\<close>

definition get_current_indent :: "string list \<Rightarrow> nat" where
  "get_current_indent ls =
     (case dropWhile (\<lambda>l. l = []) ls of [] \<Rightarrow> 0 | l # _ \<Rightarrow> get_indent l)"

definition get_min_indent :: "string list \<Rightarrow> nat" where
  "get_min_indent ls =
     (case filter (\<lambda>l. l \<noteq> []) ls of
        [] \<Rightarrow> 0
      | l # others \<Rightarrow>
          fold (\<lambda>x m. if get_indent x < m then get_indent x else m) others (get_indent l))"

definition dedent :: "string list \<Rightarrow> string list" where
  "dedent ls = map (drop (get_min_indent ls)) ls"

text \<open>\<open>_strip_empty\<close>: the slice from the first to the last non-empty line.\<close>

definition strip_empty :: "string list \<Rightarrow> string list" where
  "strip_empty ls = rev (dropWhile (\<lambda>l. l = []) (rev (dropWhile (\<lambda>l. l = []) ls)))"

text \<open>
  \<open>_is_section_header\<close>, for the peeked line \<open>l\<close> and the lines after it. The indentation
  of the header is measured on \<open>section\<close>, the lower-cased line without its spaces.
\<close>

definition is_section_header :: "string \<Rightarrow> string list \<Rightarrow> bool" where
  "is_section_header l after =
     (let section = strip_chars '' '' (lower l) in
      if re_match google_section_regex section \<noteq> None \<and>
         strip_chars '':'' section \<in> set (map fst sections)
      then get_indent section < get_current_indent after
      else False)"

definition is_section_break :: "bool \<Rightarrow> nat \<Rightarrow> string list \<Rightarrow> bool" where
  "is_section_break ins ind ls =
     (case ls of
        [] \<Rightarrow> True
      | l # after \<Rightarrow> is_section_header l after \<or> (ins \<and> l \<noteq> [] \<and> \<not> is_indented l ind))"

definition consume_empty :: "string list \<Rightarrow> string list \<times> string list" where
  "consume_empty ls = (takeWhile (\<lambda>l. l = []) ls, dropWhile (\<lambda>l. l = []) ls)"

fun consume_contiguous :: "string list \<Rightarrow> string list \<times> string list" where
  "consume_contiguous [] = ([], [])"
| "consume_contiguous (l # after) =
     (if l \<noteq> [] \<and> \<not> is_section_header l after
      then (case consume_contiguous after of (taken, left) \<Rightarrow> (l # taken, left))
      else ([], l # after))"

fun consume_to_break :: "bool \<Rightarrow> nat \<Rightarrow> string list \<Rightarrow> string list \<times> string list" where
  "consume_to_break ins ind [] = ([], [])"
| "consume_to_break ins ind (l # after) =
     (if is_section_break ins ind (l # after) then ([], l # after)
      else (case consume_to_break ins ind after of (taken, left) \<Rightarrow> (l # taken, left)))"

definition consume_to_next_section ::
  "bool \<Rightarrow> nat \<Rightarrow> string list \<Rightarrow> string list \<times> string list" where
  "consume_to_next_section ins ind ls =
     (case consume_to_break ins ind (snd (consume_empty ls)) of
        (taken, left) \<Rightarrow> (taken @ fst (consume_empty left), snd (consume_empty left)))"

fun consume_indented_block ::
  "bool \<Rightarrow> nat \<Rightarrow> nat \<Rightarrow> string list \<Rightarrow> string list \<times> string list" where
  "consume_indented_block ins ind indent [] = ([], [])"
| "consume_indented_block ins ind indent (l # after) =
     (if \<not> is_section_break ins ind (l # after) \<and> (l = [] \<or> is_indented l indent)
      then (case consume_indented_block ins ind indent after of
              (taken, left) \<Rightarrow> (l # taken, left))
      else ([], l # after))"

subsection \<open>Fields\<close>

text \<open>\<open>_partition_field_on_colon\<close>: the first single colon outside a cross-reference.\<close>

fun partition_sources :: "nat \<Rightarrow> string list \<Rightarrow> string \<times> string \<times> string" where
  "partition_sources i [] = ([], [], [])"
| "partition_sources i (source # sources) =
     (case (if even i then re_search single_colon_regex source else None) of
        Some (before_colon, m) \<Rightarrow> (before_colon, m_text m, m_after m @ concat sources)
      | None \<Rightarrow>
          (case partition_sources (Suc i) sources of
             (before_colon, colon, after) \<Rightarrow> (source @ before_colon, colon, after)))"

definition partition_field_on_colon :: "string \<Rightarrow> string \<times> string \<times> string" where
  "partition_field_on_colon line =
     (case partition_sources 0 (re_split xref_regex line) of
        (before_colon, colon, after) \<Rightarrow> (strip before_colon, colon, strip after))"

definition escape_args_and_kwargs :: "string \<Rightarrow> string" where
  "escape_args_and_kwargs name =
     (if take 2 name = ''**'' then [CHR 0x5C, CHR ''*'', CHR 0x5C, CHR ''*''] @ drop 2 name
      else if take 1 name = ''*'' then [CHR 0x5C, CHR ''*''] @ drop 1 name
      else name)"

text \<open>\<open>_consume_field\<close> on the line \<open>line\<close> just taken and the lines after it. The text
  after the colon is computed and not returned, as in the source.\<close>

definition consume_field ::
  "bool \<Rightarrow> bool \<Rightarrow> bool \<Rightarrow> nat \<Rightarrow> string \<Rightarrow> string list \<Rightarrow> doc_field \<times> string list" where
  "consume_field parse_type prefer_type ins ind line after =
     (case partition_field_on_colon line of
        (before_colon, colon, desc0) \<Rightarrow>
          let m = (if parse_type then re_match google_typed_arg_regex before_colon else None);
              name0 = (case m of Some mt \<Rightarrow> group mt 1 | None \<Rightarrow> before_colon);
              type0 = (case m of Some mt \<Rightarrow> group mt 2 | None \<Rightarrow> []);
              name1 = escape_args_and_kwargs name0;
              name2 = (if prefer_type \<and> type0 = [] then type0 else name1);
              type2 = (if prefer_type \<and> type0 = [] then name1 else type0);
              block = consume_indented_block ins ind (get_indent line + 1) after
          in ((name2, type2, dedent (fst block)), snd block))"

lemma consume_indented_block_length:
  "length (snd (consume_indented_block ins ind indent ls)) \<le> length ls"
  by (induction ls) (auto split: prod.splits)

lemma consume_field_length:
  "length (snd (consume_field pt pf ins ind line after)) \<le> length after"
  by (simp add: consume_field_def Let_def consume_indented_block_length split: prod.splits)

function consume_fields_loop ::
  "bool \<Rightarrow> bool \<Rightarrow> bool \<Rightarrow> nat \<Rightarrow> string list \<Rightarrow> doc_field list \<times> string list" where
  "consume_fields_loop parse_type prefer_type ins ind ls =
     (if is_section_break ins ind ls then ([], ls)
      else (case ls of
              [] \<Rightarrow> ([], [])
            | line # after \<Rightarrow>
                (case consume_field parse_type prefer_type ins ind line after of
                   ((name, ty, desc), left) \<Rightarrow>
                     (case consume_fields_loop parse_type prefer_type ins ind left of
                        (fs, left') \<Rightarrow>
                          (if name \<noteq> [] \<or> ty \<noteq> [] \<or> desc \<noteq> []
                           then (name, ty, desc) # fs else fs, left')))))"
  by pat_completeness auto
termination
proof (relation "measure (\<lambda>(pt, pf, ins, ind, ls). length ls)", goal_cases)
  case 1
  show ?case by simp
next
  case (2 pt pf ins ind ls line after x left y ty desc)
  from 2 have "left = snd (consume_field pt pf ins ind line after)"
    by (metis snd_conv)
  with consume_field_length [of pt pf ins ind line after] 2 show ?case by simp
qed

declare consume_fields_loop.simps [simp del]

definition consume_fields ::
  "bool \<Rightarrow> bool \<Rightarrow> bool \<Rightarrow> nat \<Rightarrow> string list \<Rightarrow> doc_field list \<times> string list" where
  "consume_fields parse_type prefer_type ins ind ls =
     consume_fields_loop parse_type prefer_type ins ind (snd (consume_empty ls))"

subsection \<open>Section parsers\<close>

text \<open>\<open>_join_subsection\<close>: an indented line continues the entry before it; every entry is
  split at its first colon, and an entry without a colon cannot be unpacked.\<close>

fun join_lines :: "string \<Rightarrow> string list \<Rightarrow> string list" where
  "join_lines prv [] = [prv]"
| "join_lines prv (line # ls) =
     (if startswith line '' '' then join_lines (prv @ line) ls
      else (if prv \<noteq> [] then [prv] else []) @ join_lines line ls)"

fun join_entries :: "string list \<Rightarrow> (string \<times> string) list \<Rightarrow> py_error + (string \<times> string) list"
  where
  "join_entries [] retval = Inr retval"
| "join_entries (line # ls) retval =
     (case split1 CHR '':'' line of
        [name, response] \<Rightarrow> join_entries ls (dict_set retval (strip name) (strip response))
      | _ \<Rightarrow> Inl ValueError)"

definition join_subsection :: "string list \<Rightarrow> py_error + (string \<times> string) list" where
  "join_subsection ls = join_entries (join_lines [] ls) []"

text \<open>The test for a line of the form \<open>see <ref>\<close> in the responses and returns
  sections.\<close>

definition is_see_line :: "string list \<Rightarrow> bool" where
  "is_see_line ls = (length ls = 1 \<and> startswith (lower (hd ls)) ''see'')"

definition has_xref :: "string \<Rightarrow> bool" where
  "has_xref line = (\<exists>sp \<in> set (split CHR '' '' line). re_match xref_regex sp \<noteq> None)"

text \<open>
  \<open>_consume_returns_section\<close>: the fields it returns, \<open>None\<close> when the function ends
  without a \<open>return\<close>, which is what the branch for a \<open>see\<close> line does.
\<close>

definition consume_returns_section ::
  "nat \<Rightarrow> gdoc \<Rightarrow> string list \<Rightarrow> doc_field list option \<times> gdoc \<times> string list" where
  "consume_returns_section ind doc ls =
     (case consume_to_next_section True ind ls of
        (taken, left) \<Rightarrow>
          let lines = dedent taken in
          if is_see_line lines then
            (None,
             if has_xref (hd lines)
             then doc\<lparr>returns := Some (ReturnsRef [(''returns'', ref_repl_doc (hd lines))])\<rparr>
             else doc,
             left)
          else
            (Some (case lines of
                     [] \<Rightarrow> []
                   | first # others \<Rightarrow>
                       (case partition_field_on_colon first of
                          (before_colon, colon, after) \<Rightarrow>
                            if colon \<noteq> [] then
                              [([], before_colon, if after \<noteq> [] then after # others else others)]
                            else [([], [], lines)])),
             doc\<lparr>returns := Some (ReturnsLines (filter (\<lambda>l. l \<noteq> []) lines))\<rparr>,
             left))"

text \<open>
  A section parser gets the header text, the object and the lines after the header, and
  returns whether it rendered any line, the object and the lines left. The rendered
  reStructuredText itself is not modelled: \<open>_parse\<close> only asks whether \<open>_parsed_lines\<close> is
  empty. The parameter renderers end their output with an empty line, the attribute, method,
  other-parameter and return renderers give at least one line per field, the responses
  parser returns its lines, and the remaining parsers return a pair, which extends the list
  by two items.
\<close>

definition free_text :: "nat \<Rightarrow> string list \<Rightarrow> string list \<times> string list" where
  "free_text ind ls =
     (case consume_to_next_section True ind ls of
        (taken, left) \<Rightarrow> (dedent (strip_empty taken), left))"

fun parse_section ::
  "section_kind \<Rightarrow> nat \<Rightarrow> string \<Rightarrow> gdoc \<Rightarrow> string list \<Rightarrow> py_error + (bool \<times> gdoc \<times> string list)"
  where
  "parse_section Parameters ind section doc ls =
     (case consume_fields True False True ind ls of
        (fs, left) \<Rightarrow> Inr (True, doc\<lparr>parameters := Some fs\<rparr>, left))"
| "parse_section Attributes ind section doc ls =
     (case consume_fields True False True ind ls of (fs, left) \<Rightarrow> Inr (fs \<noteq> [], doc, left))"
| "parse_section Examples ind section doc ls =
     (case free_text ind ls of
        (lines, left) \<Rightarrow> Inr (True, doc\<lparr>examples := Some (section, lines)\<rparr>, left))"
| "parse_section KeywordArguments ind section doc ls =
     (case consume_fields True False True ind ls of (fs, left) \<Rightarrow> Inr (True, doc, left))"
| "parse_section Methods ind section doc ls =
     (case consume_fields False False True ind ls of (fs, left) \<Rightarrow> Inr (fs \<noteq> [], doc, left))"
| "parse_section OtherParameters ind section doc ls =
     (case consume_fields True False True ind ls of
        (fs, left) \<Rightarrow>
          (case parameters doc of
             None \<Rightarrow> Inl AttributeError
           | Some ps \<Rightarrow> Inr (fs \<noteq> [], doc\<lparr>parameters := Some (ps @ fs)\<rparr>, left)))"
| "parse_section Schemas ind section doc ls =
     (case free_text ind ls of
        (lines, left) \<Rightarrow> Inr (True, doc\<lparr>schemas := Some (section, lines)\<rparr>, left))"
| "parse_section Maps ind section doc ls =
     (case free_text ind ls of
        (lines, left) \<Rightarrow>
          (case lines of
             [] \<Rightarrow> Inl IndexError
           | first # _ \<Rightarrow> Inr (True, doc\<lparr>map_attr := Some first\<rparr>, left)))"
| "parse_section Tags ind section doc ls =
     (case free_text ind ls of
        (lines, left) \<Rightarrow>
          Inr (True, doc\<lparr>tags := Some (replace '',,'' '','' (join '','' lines))\<rparr>, left))"
| "parse_section Requests ind section doc ls =
     (case free_text ind ls of
        (lines, left) \<Rightarrow> Inr (True, doc\<lparr>requests := Some (section, lines)\<rparr>, left))"
| "parse_section Responses ind section doc ls =
     (case consume_to_next_section True ind ls of
        (taken, left) \<Rightarrow>
          let lines = filter (\<lambda>l. l \<noteq> []) (dedent taken) in
          if is_see_line lines then
            Inr (True,
                 doc\<lparr>responses := Some (if has_xref (hd lines)
                                          then [(''responses'', ref_repl_doc (hd lines))]
                                          else [])\<rparr>,
                 left)
          else
            ebind (join_subsection lines) (\<lambda>d.
            Inr (lines \<noteq> [], doc\<lparr>responses := Some d\<rparr>, left)))"
| "parse_section Returns ind section doc ls =
     (case consume_returns_section ind doc ls of
        (None, doc', left) \<Rightarrow> Inl TypeError
      | (Some fs, doc', left) \<Rightarrow> Inr (fs \<noteq> [], doc', left))"

subsection \<open>\<open>_parse\<close>\<close>

definition consume_section_header :: "string \<Rightarrow> string" where
  "consume_section_header section =
     (let stripped_section = strip_chars '':'' (strip_chars '' '' section) in
      if lower stripped_section \<in> set (map fst sections) then stripped_section else section)"

text \<open>
  One round of the \<open>while\<close> loop of \<open>_parse\<close>, on the peeked line and the lines after it:
  \<open>parsed\<close> says whether \<open>_parsed_lines\<close> is non-empty.
\<close>

definition parse_step ::
  "bool \<Rightarrow> gdoc \<Rightarrow> string \<Rightarrow> string list \<Rightarrow> py_error + (bool \<times> gdoc \<times> string list)" where
  "parse_step parsed doc l after =
     (if is_section_header l after then
        let section = consume_section_header l;
            ind = get_current_indent after
        in if re_match directive_regex section \<noteq> None then
             Inr (True, doc, snd (consume_to_next_section True ind after))
           else
             (case map_of sections (lower section) of
                None \<Rightarrow> Inl KeyError
              | Some kind \<Rightarrow>
                  ebind (parse_section kind ind section doc after) (\<lambda>r.
                  Inr (parsed \<or> fst r, snd r)))
      else if \<not> parsed then
        (case consume_contiguous (l # after) of
           (taken, left) \<Rightarrow>
             let lines = taken @ fst (consume_empty left) in
             Inr (lines \<noteq> [],
                  doc\<lparr>description := Some (join '' '' (map lstrip lines))\<rparr>,
                  snd (consume_empty left)))
      else
        (case consume_to_next_section False 0 (l # after) of
           (taken, left) \<Rightarrow> Inr (True, doc, left)))"

lemma consume_empty_length: "length (snd (consume_empty ls)) \<le> length ls"
  by (simp add: consume_empty_def length_dropWhile_le)

lemma consume_contiguous_length: "length (snd (consume_contiguous ls)) \<le> length ls"
  by (induction ls) (auto split: prod.splits)

lemma consume_to_break_length: "length (snd (consume_to_break ins ind ls)) \<le> length ls"
  by (induction ls) (auto split: prod.splits)

lemma consume_to_next_section_length:
  "length (snd (consume_to_next_section ins ind ls)) \<le> length ls"
proof -
  obtain taken left where c: "consume_to_break ins ind (snd (consume_empty ls)) = (taken, left)"
    by (cases "consume_to_break ins ind (snd (consume_empty ls))")
  have "length left \<le> length (snd (consume_empty ls))"
    using consume_to_break_length [of ins ind "snd (consume_empty ls)"] c by simp
  moreover have "length (snd (consume_empty left)) \<le> length left"
    by (rule consume_empty_length)
  ultimately show ?thesis
    using consume_empty_length [of ls] c by (simp add: consume_to_next_section_def)
qed

lemma consume_to_next_section_lengthD:
  "consume_to_next_section ins ind ls = (taken, left) \<Longrightarrow> length left \<le> length ls"
  using consume_to_next_section_length [of ins ind ls] by simp

lemma consume_fields_loop_length:
  "length (snd (consume_fields_loop pt pf ins ind ls)) \<le> length ls"
proof (induction pt pf ins ind ls rule: consume_fields_loop.induct)
  case (1 pt pf ins ind ls)
  show ?case
  proof (cases "is_section_break ins ind ls")
    case True
    then have "consume_fields_loop pt pf ins ind ls = ([], ls)"
      by (subst consume_fields_loop.simps) simp
    then show ?thesis by simp
  next
    case False
    then obtain line after where ls: "ls = line # after"
      by (cases ls) (auto simp: is_section_break_def)
    obtain name ty desc left where
      cf: "consume_field pt pf ins ind line after = ((name, ty, desc), left)"
      by (cases "consume_field pt pf ins ind line after") auto
    obtain fs left' where r: "consume_fields_loop pt pf ins ind left = (fs, left')"
      by (cases "consume_fields_loop pt pf ins ind left")
    have "length left \<le> length after"
      using consume_field_length [of pt pf ins ind line after] cf by simp
    moreover have "length left' \<le> length left"
      using "1.IH" [OF False ls cf [symmetric]] r by simp
    moreover have "snd (consume_fields_loop pt pf ins ind ls) = left'"
      using False by (subst consume_fields_loop.simps) (simp add: ls cf r)
    ultimately show ?thesis
      using ls by simp
  qed
qed

lemma consume_fields_lengthD:
  "consume_fields pt pf ins ind ls = (fs, left) \<Longrightarrow> length left \<le> length ls"
  using consume_fields_loop_length [of pt pf ins ind "snd (consume_empty ls)"]
    consume_empty_length [of ls]
  by (simp add: consume_fields_def)

lemma free_text_lengthD: "free_text ind ls = (lines, left) \<Longrightarrow> length left \<le> length ls"
  by (auto simp: free_text_def split: prod.splits dest: consume_to_next_section_lengthD)

lemma parse_section_length:
  "parse_section kind ind section doc ls = Inr r \<Longrightarrow> length (snd (snd r)) \<le> length ls"
  by (cases kind)
     (auto simp: Let_def ebind_eq_Inr consume_returns_section_def
           split: prod.splits if_splits option.splits list.splits
           dest: consume_to_next_section_lengthD consume_fields_lengthD free_text_lengthD)

lemma parse_step_length:
  assumes "parse_step parsed doc l after = Inr r"
  shows "length (snd (snd r)) \<le> length after"
proof (cases "is_section_header l after")
  case True
  with assms show ?thesis
    using consume_to_next_section_length [of True "get_current_indent after" after]
    by (auto simp: parse_step_def Let_def ebind_eq_Inr split: if_splits option.splits
             dest: parse_section_length)
next
  case False
  show ?thesis
  proof (cases parsed)
    case False
    obtain taken left where c: "consume_contiguous (l # after) = (taken, left)"
      by (cases "consume_contiguous (l # after)")
    have "length (snd (consume_empty left)) \<le> length after"
    proof (cases "l = []")
      case True
      with c have "left = l # after" by simp
      with True show ?thesis by (simp add: consume_empty_def length_dropWhile_le)
    next
      case nonempty: False
      with c \<open>\<not> is_section_header l after\<close>
      have "left = snd (consume_contiguous after)" by (auto split: prod.splits)
      with consume_contiguous_length [of after] consume_empty_length [of left]
      show ?thesis by simp
    qed
    with assms False \<open>\<not> is_section_header l after\<close> c show ?thesis
      by (auto simp: parse_step_def Let_def)
  next
    case True
    have "length (snd (consume_to_next_section False 0 (l # after))) \<le> length after"
    proof (cases "l = []")
      case True
      then have "snd (consume_empty (l # after)) = snd (consume_empty after)"
        by (simp add: consume_empty_def)
      then have "consume_to_next_section False 0 (l # after) =
                 consume_to_next_section False 0 after"
        by (simp add: consume_to_next_section_def)
      with consume_to_next_section_length [of False 0 after] show ?thesis by simp
    next
      case nonempty: False
      then have e: "snd (consume_empty (l # after)) = l # after"
        by (simp add: consume_empty_def)
      obtain taken left where c: "consume_to_break False 0 after = (taken, left)"
        by (cases "consume_to_break False 0 after")
      from \<open>\<not> is_section_header l after\<close>
      have "consume_to_break False 0 (l # after) = (l # taken, left)"
        using c by (simp add: is_section_break_def)
      moreover have "length left \<le> length after"
        using consume_to_break_length [of False 0 after] c by simp
      moreover have "length (snd (consume_empty left)) \<le> length left"
        by (rule consume_empty_length)
      ultimately show ?thesis
        using e by (simp add: consume_to_next_section_def)
    qed
    with assms True \<open>\<not> is_section_header l after\<close> show ?thesis
      by (auto simp: parse_step_def split: prod.splits)
  qed
qed

function parse_loop :: "bool \<Rightarrow> gdoc \<Rightarrow> string list \<Rightarrow> py_error + gdoc" where
  "parse_loop parsed doc [] = Inr doc"
| "parse_loop parsed doc (l # after) =
     (case parse_step parsed doc l after of
        Inl e \<Rightarrow> Inl e
      | Inr r \<Rightarrow> parse_loop (fst r) (fst (snd r)) (snd (snd r)))"
  by pat_completeness auto
termination
proof (relation "measure (\<lambda>(parsed, doc, ls). length ls)", goal_cases)
  case 1
  show ?case by simp
next
  case (2 parsed doc l after r)
  from parse_step_length [OF 2] show ?case by (cases r) auto
qed

text \<open>
  \<open>GoogleDocstring(docstring)\<close> with the default \<open>what\<close>, \<open>name\<close> and \<open>obj\<close>, for a list
  of lines and for a string: the attributes of the parsed object, or the exception that
  leaves the constructor.
\<close>

definition GoogleDocstring_lines :: "string list \<Rightarrow> py_error + gdoc" where
  "GoogleDocstring_lines docstring =
     (case consume_empty (map rstrip docstring) of
        (parsed_lines, left) \<Rightarrow> parse_loop (parsed_lines \<noteq> []) empty_doc left)"

definition GoogleDocstring :: "string \<Rightarrow> py_error + gdoc" where
  "GoogleDocstring docstring = GoogleDocstring_lines (splitlines docstring)"

subsection \<open>Docstrings without section headers\<close>

text \<open>No line of \<open>ls\<close> is a section header where it stands.\<close>

fun no_section_headers :: "string list \<Rightarrow> bool" where
  "no_section_headers [] = True"
| "no_section_headers (l # after) = (\<not> is_section_header l after \<and> no_section_headers after)"

text \<open>
  A section header in the words of the specification: the line is word(s) and a colon, the
  word is a known section name whatever its case, and the next non-blank line is indented
  strictly deeper than the line itself. \<open>has_section_name\<close> is the test of the name as
  \<open>_is_section_header\<close> makes it.
\<close>

definition has_section_name :: "string \<Rightarrow> bool" where
  "has_section_name l =
     (let section = strip_chars '' '' (lower l) in
      re_match google_section_regex section \<noteq> None \<and>
      strip_chars '':'' section \<in> set (map fst sections))"

definition specified_header :: "string \<Rightarrow> string list \<Rightarrow> bool" where
  "specified_header l after = (has_section_name l \<and> get_indent l < get_current_indent after)"

text \<open>No line of \<open>ls\<close> is a section header in the words of the specification.\<close>

fun no_specified_headers :: "string list \<Rightarrow> bool" where
  "no_specified_headers [] = True"
| "no_specified_headers (l # after) =
     (\<not> specified_header l after \<and> no_specified_headers after)"

text \<open>
  No line of \<open>ls\<close> is taken for a section header by \<open>_is_section_header\<close> without being
  one in the words of the specification.
\<close>

fun no_misjudged_headers :: "string list \<Rightarrow> bool" where
  "no_misjudged_headers [] = True"
| "no_misjudged_headers (l # after) =
     (\<not> (is_section_header l after \<and> \<not> specified_header l after) \<and>
      no_misjudged_headers after)"

text \<open>
  The first block of text: the lines up to the first empty one, each without its leading
  whitespace, and the empty lines that follow, joined by single spaces. There is none when
  the docstring is empty or starts with an empty line.
\<close>

definition first_block_description :: "string list \<Rightarrow> string option" where
  "first_block_description ls =
     (case ls of
        [] \<Rightarrow> None
      | l # _ \<Rightarrow>
          if l = [] then None
          else Some (join '' '' (map lstrip
                 (takeWhile (\<lambda>x. x \<noteq> []) ls @
                  takeWhile (\<lambda>x. x = []) (dropWhile (\<lambda>x. x \<noteq> []) ls)))))"

section \<open>parser.py: the operation id\<close>

text \<open>
  What the sources read of a Python object (a function, a class or a module):
  \<open>__module__\<close>, \<open>__name__\<close>, \<open>__qualname__\<close>, \<open>__doc__\<close> and its attributes.
\<close>

datatype pyobj = PyObj (f_module: string) (f_name: string) (f_qualname: string)
  (f_doc: "string option") (f_attrs: "(string \<times> pyobj) list")

definition capitalize :: "string \<Rightarrow> py_error + string" where
  "capitalize x = (case x of [] \<Rightarrow> Inl IndexError | c # cs \<Rightarrow> Inr (ch_upper c # cs))"

definition capital_case :: "string \<Rightarrow> string" where
  "capital_case x = replace ''_'' [] (title x)"

definition camel_case :: "string \<Rightarrow> py_error + string" where
  "camel_case x =
     (case capital_case x of [] \<Rightarrow> Inl IndexError | c # cs \<Rightarrow> Inr (ch_lower c # cs))"

text \<open>A value of the \<open>components\<close> dictionary: a string, or the list of parameters.\<close>

datatype comp = CStr string | CList "string list"

text \<open>\<open>re.split(r'(%[a-zA-Z])', x)\<close>, \<open>re.compile(r'\[.+?\]')\<close> and \<open>r'^(.*?)%'\<close>.\<close>

definition token_regex :: rx where
  "token_regex = Group 1 (Seq (Lit (Ch CHR ''%'')) (Lit Letter))"

definition bracket_regex :: rx where
  "bracket_regex = seqs [Lit (Ch CHR ''[''), LazyPlus (Lit Dot), Lit (Ch CHR '']'')]"

definition prefix_regex :: rx where
  "prefix_regex = seqs [Bol, Group 1 (LazyStar (Lit Dot)), Lit (Ch CHR ''%'')]"

text \<open>\<open>xs.index(c)\<close>; \<open>None\<close> is the \<open>ValueError\<close> that the loop catches.\<close>

fun index_of :: "'a list \<Rightarrow> 'a \<Rightarrow> nat option" where
  "index_of [] c = None"
| "index_of (x # xs) c = (if x = c then Some 0 else map_option Suc (index_of xs c))"

text \<open>\<open>_ and capitalize(_)\<close>.\<close>

definition and_capitalize :: "string \<Rightarrow> string" where
  "and_capitalize v = (case v of [] \<Rightarrow> [] | c # cs \<Rightarrow> ch_upper c # cs)"

text \<open>
  The loop of \<open>template_subroutine\<close> over the components, in their order. A component
  of the wrong type (a list where a string method is called) raises as Python does; \<open>get_opId\<close>
  never builds one.
\<close>

fun template_loop :: "(string \<times> comp) list \<Rightarrow> string \<Rightarrow> string list \<Rightarrow> py_error + string" where
  "template_loop [] prefix x = Inr (join prefix (filter (\<lambda>s. s \<noteq> []) x))"
| "template_loop ((c, v) # comps) prefix x =
     (case index_of (map lower x) c of
        None \<Rightarrow> template_loop comps prefix x
      | Some i \<Rightarrow>
          if x ! i = ''%p'' then
            (case v of CList ps \<Rightarrow> Inr (join prefix ps)
             | CStr s \<Rightarrow> Inr (join prefix (map (\<lambda>ch. [ch]) s)))
          else if x ! i = ''%P'' then
            (case v of CList ps \<Rightarrow> Inr (join prefix (map and_capitalize ps))
             | CStr s \<Rightarrow> Inr (join prefix (map (\<lambda>ch. [ch_upper ch]) s)))
          else if x ! i = ''%h'' then
            (case v of CStr s \<Rightarrow> template_loop comps prefix (x[i := lower s])
             | CList ps \<Rightarrow> Inl AttributeError)
          else if x ! i = ''%H'' then
            (case v of CStr s \<Rightarrow> template_loop comps prefix (x[i := upper s])
             | CList ps \<Rightarrow> Inl AttributeError)
          else if x ! i = upper c then
            (case v of CStr s \<Rightarrow> template_loop comps prefix (x[i := and_capitalize s])
             | CList ps \<Rightarrow> Inl TypeError)
          else
            (case v of CStr s \<Rightarrow> template_loop comps prefix (x[i := s])
             | CList ps \<Rightarrow> Inl TypeError))"

definition template_subroutine :: "string \<Rightarrow> (string \<times> comp) list \<Rightarrow> string \<Rightarrow> py_error + string" where
  "template_subroutine x components prefix =
     template_loop components prefix (filter (\<lambda>s. s \<noteq> []) (re_split token_regex x))"

text \<open>
  The loop of \<open>get_opId\<close> over the bracketed groups. \<open>re.sub\<close> reads backslashes in the
  replacement as escapes; a replacement with a backslash is not modelled.
\<close>

fun opid_groups :: "(string \<times> comp) list \<Rightarrow> string list \<Rightarrow> string \<Rightarrow> py_error + string" where
  "opid_groups components [] template = Inr template"
| "opid_groups components (x # xs) template =
     (case re_match prefix_regex (strip_chars ''[]'' x) of
        None \<Rightarrow> opid_groups components xs template
      | Some m \<Rightarrow>
          ebind (template_subroutine (lstrip_chars (group m 1) (strip_chars ''[]'' x))
                   components (group m 1)) (\<lambda>x'.
          if CHR 0x5C \<in> set x' then Inl NotModelled
          else opid_groups components xs (re_sub1 bracket_regex (\<lambda>_. x') template)))"

definition get_opId ::
  "string \<Rightarrow> pyobj \<Rightarrow> pyobj option \<Rightarrow> string list \<Rightarrow> string \<Rightarrow> string \<Rightarrow> py_error + string" where
  "get_opId name func redir_func params method template =
     (if template = [] then Inl ValueError
      else
        let modname = f_module func;
            fname0 = f_name func;
            clsname0 = (if length (split CHR ''.'' (f_qualname func)) > 1
                        then hd (split CHR ''.'' (f_qualname func)) else []);
            clsname = (if clsname0 = fname0 \<and> str_contains ''%f'' template then [] else clsname0);
            redir0 = (case redir_func of
                        Some r \<Rightarrow> last (split CHR ''.'' (f_qualname r)) | None \<Rightarrow> []);
            redir = (if redir0 = fname0 \<and> str_contains ''%f'' template then [] else redir0);
            name' = last (split CHR ''/'' name);
            fname = (if fname0 = name' \<and> str_contains ''%n'' template then [] else fname0)
        in
          if str_contains ''[['' (filter (\<lambda>c. c = CHR ''['' \<or> c = CHR '']'') template)
          then Inl ValueError
          else
            ebind (camel_case modname) (\<lambda>m.
            let components = [(''%m'', CStr m), (''%c'', CStr clsname), (''%f'', CStr fname),
                              (''%r'', CStr redir), (''%n'', CStr name'), (''%p'', CList params),
                              (''%h'', CStr method)]
            in ebind (opid_groups components (re_findall bracket_regex template) template)
                 (\<lambda>template'. template_subroutine template' components [])))"

text \<open>\<open>bleh_annot\<close> of \<open>tests/functions.py\<close>.\<close>

definition bleh_annot :: pyobj where
  "bleh_annot = PyObj ''tests.functions'' ''bleh_annot'' ''bleh_annot''
     (Some (''Some random shit'' @ [CHR 0x0A, CHR 0x0A] @
            ''    Request:'' @ [CHR 0x0A] @
            ''        content-type: MimeTypes.json'' @ [CHR 0x0A] @
            ''        body:'' @ [CHR 0x0A] @
            ''            some_attr: :func:`bleh_redirect`'' @ [CHR 0x0A] @ ''    '')) []"
section \<open>parser.py: resolving a redirect\<close>

text \<open>
  A namespace binds names to objects. The process state that \<open>get_func_for_redirect\<close>
  works in: the registry \<open>global_modules\<close>, the globals of \<open>parser.py\<close> and of \<open>util.py\<close>,
  the loaded modules \<open>sys.modules\<close>, and the top-level modules that an \<open>import\<close> can find.
  An object is the value it has in that state, with the values of its attributes.
\<close>

type_synonym namespace = "string \<Rightarrow> pyobj option"

record world =
  global_modules :: namespace
  parser_globals :: namespace
  util_globals :: namespace
  sys_modules :: namespace
  importable :: namespace

text \<open>
  Python itself is a parameter of the model, with the whole state in its hands.
  \<open>py_exec py w ns code\<close> is \<open>exec("testvar = " + code, ns, ldict)\<close> followed by
  \<open>ldict['testvar']\<close> in the state \<open>w\<close>: the value (\<open>None\<close> being Python's \<open>None\<close>) or the
  exception, and the state after it, since the code can read and change whatever the
  process holds. \<open>py_import py w modname\<close> is \<open>exec(f"import {modname}")\<close>: the exception
  if there is one, and the state after it, with the modules that were loaded and all that
  loading them did. Exceptions that are no \<open>Exception\<close> are outside the model.
\<close>

record python =
  py_exec :: "world \<Rightarrow> namespace \<Rightarrow> string \<Rightarrow> (py_error + pyobj option) \<times> world"
  py_import :: "world \<Rightarrow> string \<Rightarrow> py_error option \<times> world"

text \<open>\<open>exec_and_return(exec_str, modules)\<close> of \<open>util.py\<close>, which adds its own globals.\<close>

definition exec_and_return ::
  "python \<Rightarrow> world \<Rightarrow> string \<Rightarrow> namespace \<Rightarrow> (py_error + pyobj option) \<times> world" where
  "exec_and_return py w exec_str modules = py_exec py w (modules ++ util_globals w) exec_str"

definition getattr :: "pyobj \<Rightarrow> string \<Rightarrow> py_error + pyobj" where
  "getattr obj name =
     (case map_of (f_attrs obj) name of None \<Rightarrow> Inl AttributeError | Some x \<Rightarrow> Inr x)"

text \<open>The last \<open>try\<close> block: the attribute \<open>func_name\<close> of the object that the first
  component of \<open>__qualname__\<close> names in the module of \<open>redirect_from\<close>.\<close>

definition lookup_in_class :: "world \<Rightarrow> string \<Rightarrow> pyobj \<Rightarrow> pyobj option" where
  "lookup_in_class w func_name redirect_from =
     (case sys_modules w (f_module redirect_from) of
        None \<Rightarrow> None
      | Some m \<Rightarrow>
          (case getattr m (hd (split CHR ''.'' (f_qualname redirect_from))) of
             Inl e \<Rightarrow> None
           | Inr func_class \<Rightarrow>
               (case getattr func_class func_name of Inl e \<Rightarrow> None | Inr func \<Rightarrow> Some func)))"

text \<open>The namespace \<open>{**global_modules, **globals()}\<close> built in \<open>parser.py\<close>.\<close>

definition parser_namespace :: "world \<Rightarrow> namespace" where
  "parser_namespace w = global_modules w ++ parser_globals w"

text \<open>
  The third \<open>try\<close> block after its import, in the state \<open>w\<close> that the import left: the
  value returned, or \<open>None\<close> when the block ends without a \<open>return\<close>, and the state after
  it.
\<close>

definition lookup_in_module ::
  "python \<Rightarrow> world \<Rightarrow> string \<Rightarrow> pyobj \<Rightarrow> pyobj option option \<times> world" where
  "lookup_in_module py w func_name redirect_from =
     (let modname = f_module redirect_from in
      case sys_modules w modname of
        None \<Rightarrow> (None, w)
      | Some m \<Rightarrow>
          (case exec_and_return py w
                  (join ''.'' [if CHR ''.'' \<in> set modname then last (split CHR ''.'' modname)
                               else modname, func_name])
                  ([modname \<mapsto> m] ++ parser_namespace w) of
             (Inl e, w') \<Rightarrow> (None, w')
           | (Inr func, w') \<Rightarrow> (Some func, w')))"

text \<open>\<open>get_func_for_redirect\<close>: the function found (or \<open>None\<close>) and the state after the
  call.\<close>

definition get_func_for_redirect ::
  "python \<Rightarrow> world \<Rightarrow> string \<Rightarrow> pyobj \<Rightarrow> pyobj option \<times> world" where
  "get_func_for_redirect py w func_name redirect_from =
     (case exec_and_return py w func_name (parser_namespace w) of
        (Inr func, w1) \<Rightarrow> (func, w1)
      | (Inl e1, w1) \<Rightarrow>
     (case exec_and_return py w1 (join ''.'' [f_module redirect_from, func_name])
             (parser_namespace w1) of
        (Inr func, w2) \<Rightarrow> (func, w2)
      | (Inl e2, w2) \<Rightarrow>
     (case py_import py w2 (f_module redirect_from) of
        (Some e3, w3) \<Rightarrow> (lookup_in_class w3 func_name redirect_from, w3)
      | (None, w3) \<Rightarrow>
          (case lookup_in_module py w3 func_name redirect_from of
             (Some func, w4) \<Rightarrow> (func, w4)
           | (None, w4) \<Rightarrow> (lookup_in_class w4 func_name redirect_from, w4)))))"

subsection \<open>A Python for the examples\<close>

text \<open>
  The evaluation of two forms of expression. A dotted name: the first component is looked
  up in the namespace, the others are attributes. A subscript of \<open>sys.modules\<close> by a
  quoted module name, followed by attributes: the name \<open>sys\<close> is looked up in the
  namespace, where it names the module \<open>sys\<close> or an object without \<open>modules\<close>, and the
  module in the loaded modules of the state. Neither has an effect.
\<close>

fun getattrs :: "pyobj \<Rightarrow> string list \<Rightarrow> py_error + pyobj" where
  "getattrs obj [] = Inr obj"
| "getattrs obj (a # attrs) =
     (case getattr obj a of Inl e \<Rightarrow> Inl e | Inr x \<Rightarrow> getattrs x attrs)"

definition sys_object :: pyobj where
  "sys_object = PyObj [] ''sys'' ''sys'' None []"

definition eval_name :: "namespace \<Rightarrow> string \<Rightarrow> py_error + pyobj option" where
  "eval_name ns expr =
     (case split CHR ''.'' expr of
        [] \<Rightarrow> Inl NameError
      | n # attrs \<Rightarrow>
          (case ns n of
             None \<Rightarrow> Inl NameError
           | Some obj \<Rightarrow>
               (case getattrs obj attrs of Inl e \<Rightarrow> Inl e | Inr x \<Rightarrow> Inr (Some x))))"

definition eval_subscript :: "world \<Rightarrow> namespace \<Rightarrow> string \<Rightarrow> py_error + pyobj option" where
  "eval_subscript w ns after_bracket =
     (let modname = takeWhile (\<lambda>c. c \<noteq> CHR 0x27) after_bracket;
          after_name = drop (length modname + 2) after_bracket
      in case ns ''sys'' of
           None \<Rightarrow> Inl NameError
         | Some s \<Rightarrow>
             if s \<noteq> sys_object then Inl AttributeError
             else
               (case sys_modules w modname of
                  None \<Rightarrow> Inl KeyError
                | Some m \<Rightarrow>
                    (case getattrs m
                            (if after_name = [] then [] else split CHR ''.'' (tl after_name)) of
                       Inl e \<Rightarrow> Inl e
                     | Inr x \<Rightarrow> Inr (Some x))))"

definition eval_expr :: "world \<Rightarrow> namespace \<Rightarrow> string \<Rightarrow> (py_error + pyobj option) \<times> world"
  where
  "eval_expr w ns expr =
     (if startswith expr (''sys.modules['' @ [CHR 0x27])
      then (eval_subscript w ns (drop 13 expr), w)
      else (eval_name ns expr, w))"

text \<open>
  The import of a module where the modules that are not loaded are top-level modules that
  only define their names when they are loaded: a loaded module stays and nothing
  changes, a module that is found is loaded, and any other name raises \<open>ImportError\<close>.
\<close>

definition import_top_level :: "world \<Rightarrow> string \<Rightarrow> py_error option \<times> world" where
  "import_top_level w modname =
     (case sys_modules w modname of
        Some m \<Rightarrow> (None, w)
      | None \<Rightarrow>
          (case importable w modname of
             None \<Rightarrow> (Some ImportError, w)
           | Some m \<Rightarrow> (None, w\<lparr>sys_modules := (sys_modules w)(modname \<mapsto> m)\<rparr>)))"

definition example_python :: python where
  "example_python = \<lparr>py_exec = eval_expr, py_import = import_top_level\<rparr>"

text \<open>
  The resolution order in the words of the specification: the registry, the defining
  module, for a dotted module the last component and then the name on the imported module
  object, and the declaring class.
\<close>

fun first_success :: "(py_error + pyobj option) list \<Rightarrow> pyobj option" where
  "first_success [] = None"
| "first_success (Inr func # attempts) = func"
| "first_success (Inl e # attempts) = first_success attempts"

definition resolve_as_specified :: "python \<Rightarrow> world \<Rightarrow> string \<Rightarrow> pyobj \<Rightarrow> pyobj option" where
  "resolve_as_specified py w func_name redirect_from =
     (let modname = f_module redirect_from;
          ns = parser_namespace w;
          w' = snd (py_import py w modname);
          imported = (case fst (py_import py w modname) of
                        Some e \<Rightarrow> None | None \<Rightarrow> sys_modules w' modname)
      in first_success
           ([fst (exec_and_return py w func_name ns),
             fst (exec_and_return py w (join ''.'' [modname, func_name]) ns)] @
            (if CHR ''.'' \<in> set modname then
               [fst (exec_and_return py w'
                       (join ''.'' [last (split CHR ''.'' modname), func_name])
                       (parser_namespace w')),
                (case imported of
                   None \<Rightarrow> Inl ImportError
                 | Some m \<Rightarrow> (case getattr m func_name of Inl e \<Rightarrow> Inl e | Inr x \<Rightarrow> Inr (Some x)))]
             else []) @
            [case lookup_in_class w' func_name redirect_from of
               None \<Rightarrow> Inl AttributeError | Some x \<Rightarrow> Inr (Some x)]))"

text \<open>
  Two functions of one module, for a module \<open>functions\<close> and for a module
  \<open>tests.functions\<close>; a state in which the module is loaded and one in which it is not,
  but is found by an import. In both the registry is empty and \<open>parser.py\<close> has imported
  \<open>sys\<close>.
\<close>

definition fn_in :: "string \<Rightarrow> string \<Rightarrow> pyobj" where
  "fn_in modname name = PyObj modname name name None []"

definition module_of :: "string \<Rightarrow> pyobj" where
  "module_of modname = PyObj [] modname modname None
     [(''bleh'', fn_in modname ''bleh''), (''bleh_redirect'', fn_in modname ''bleh_redirect'')]"

definition loaded_only :: "string \<Rightarrow> world" where
  "loaded_only modname = \<lparr>global_modules = Map.empty,
     parser_globals = [''sys'' \<mapsto> sys_object],
     util_globals = Map.empty, sys_modules = [modname \<mapsto> module_of modname],
     importable = Map.empty\<rparr>"


section \<open>parser.py: the specification of a path\<close>

subsection \<open>Sections of the docstring\<close>

text \<open>\<open>ref_regex\<close> and the two substitutions of \<open>ref_repl\<close>.\<close>

definition ref_regex :: rx where
  "ref_regex = seqs [Group 1 (Star (Lit Dot)),
     Group 2 (seqs [Lit (Ch CHR '':''), Plus (Lit Alnum), Lit (OneOf ''-_+:.'')]),
     Lit (Ch CHR 0x60), Group 3 (LazyPlus (Lit Dot)), Lit (Ch CHR 0x60)]"

definition tilde_regex :: rx where
  "tilde_regex = seqs [Opt (Lit (Ch CHR ''~'')), Group 1 (Plus (Lit Dot)),
     Opt (Lit (Ch CHR '','')), Star (Lit Dot)]"

definition ref_repl :: "string \<Rightarrow> string" where
  "ref_repl x = re_sub tilde_regex (\<lambda>m. group m 1) (re_sub ref_regex (\<lambda>m. group m 3) x)"

text \<open>The patterns of a placeholder of a route: an opening angle bracket, one or more
  characters (greedy in \<open>check_function_redirect\<close>, lazy and captured in
  \<open>get_params_in_path\<close> and \<open>make_paths\<close>) and a closing angle bracket.\<close>

definition placeholder_regex :: rx where
  "placeholder_regex = seqs [Lit (Ch CHR ''<''), Plus (Lit Dot), Lit (Ch CHR ''>'')]"

definition path_param_regex :: rx where
  "path_param_regex = seqs [Lit (Ch CHR ''<''), Group 1 (LazyPlus (Lit Dot)), Lit (Ch CHR ''>'')]"

definition params_in_path :: "string \<Rightarrow> string list" where
  "params_in_path name = map (\<lambda>bm. group (snd bm) 1) (fst (scan path_param_regex None name))"

text \<open>The loop of \<open>check_function_redirect\<close> over \<open>zip(rule_, rulename_)\<close>.\<close>

fun substitute_placeholders :: "(string \<times> string) list \<Rightarrow> string \<times> string \<Rightarrow> string \<times> string"
  where
  "substitute_placeholders [] vr = vr"
| "substitute_placeholders ((x, y) # xys) (var, remainder) =
     (if re_match placeholder_regex x \<noteq> None
      then substitute_placeholders xys (butlast (tl x), replace x y remainder)
      else substitute_placeholders xys (var, remainder))"

definition check_function_redirect :: "string option \<Rightarrow> string \<Rightarrow> py_error + (string \<times> string)"
  where
  "check_function_redirect docstr rulename =
     (case docstr of
        None \<Rightarrow> Inr ([], [])
      | Some d \<Rightarrow>
          if d = [] then Inr ([], [])
          else
            ebind (GoogleDocstring d) (\<lambda>doc.
              case map_attr doc of
                None \<Rightarrow> Inr ([], [])
              | Some m \<Rightarrow>
                  (case split1 CHR '':'' m of
                     [rule, remainder] \<Rightarrow>
                       Inr (substitute_placeholders
                              (zip (split CHR ''/'' (strip rule)) (split CHR ''/'' rulename))
                              ([], ref_repl (strip remainder)))
                   | _ \<Rightarrow> Inl ValueError)))"

text \<open>A subsection of the request section: the text after its colon, or the lines
  under it.\<close>

datatype reqval = RStr string | RLines "string list"

fun requests_loop ::
  "string list \<Rightarrow> string option \<Rightarrow> (string \<times> reqval) list \<Rightarrow> py_error + (string \<times> reqval) list"
  where
  "requests_loop [] subsection sects = Inr sects"
| "requests_loop (line # ls) subsection sects =
     (if \<not> startswith line '' '' then
        (case split1 CHR '':'' line of
           [sub, val] \<Rightarrow>
             if strip val \<noteq> [] then
               requests_loop ls (Some sub) (dict_set sects sub (RStr (strip val)))
             else
               requests_loop ls (Some (strip_chars '' '' (strip_chars '':'' line)))
                 (dict_set sects (strip_chars '' '' (strip_chars '':'' line)) (RLines []))
         | _ \<Rightarrow> Inl ValueError)
      else
        (case subsection of
           None \<Rightarrow> Inl NameError
         | Some sub \<Rightarrow>
             (case map_of sects sub of
                None \<Rightarrow> Inl KeyError
              | Some (RStr s) \<Rightarrow> Inl AttributeError
              | Some (RLines xs) \<Rightarrow>
                  requests_loop ls (Some sub) (dict_set sects sub (RLines (xs @ [strip line]))))))"

definition get_requests :: "pyobj \<Rightarrow> py_error + (string \<times> reqval) list" where
  "get_requests func =
     (case f_doc func of
        None \<Rightarrow> Inr []
      | Some d \<Rightarrow>
          ebind (GoogleDocstring d) (\<lambda>doc.
            case requests doc of
              None \<Rightarrow> Inr []
            | Some r \<Rightarrow> requests_loop (snd r) None []))"

definition get_tags :: "pyobj \<Rightarrow> py_error + string list" where
  "get_tags func =
     (case f_doc func of
        None \<Rightarrow> Inr []
      | Some d \<Rightarrow>
          ebind (GoogleDocstring d) (\<lambda>doc.
            case tags doc of
              None \<Rightarrow> Inr []
            | Some t \<Rightarrow>
                let t' = re_sub (Plus (Lit (Ch CHR '',''))) (\<lambda>m. '','')
                           (re_sub (Plus (Lit (Ch CHR '' ''))) (\<lambda>m. []) t)
                in Inr (if t' \<noteq> [] then split CHR '','' t' else [])))"

text \<open>\<open>FlaskTypes\<close> of \<open>schemas.py\<close>, and \<open>get_params_in_path\<close>.\<close>

definition FlaskTypes :: "(string \<times> string) list" where
  "FlaskTypes = [(''string'', ''str''), (''int'', ''integer''), (''integer'', ''integer''),
     (''float'', ''float''), (''uuid'', ''uuid''), (''path'', ''path'')]"

definition path_param :: "string \<Rightarrow> json" where
  "path_param p0 =
     (let splits = split CHR '':'' p0;
          p = (if length splits > 1 then splits ! 1 else p0);
          p_type = (if length splits > 1
                    then (case map_of FlaskTypes (hd splits) of Some t \<Rightarrow> t | None \<Rightarrow> ''string'')
                    else ''string'')
      in JObj [(KStr ''in'', JStr ''path''), (KStr ''name'', JStr p),
               (KStr ''required'', JBool True),
               (KStr ''schema'',
                  if p_type = ''uuid''
                  then JObj [(KStr ''type'', JStr ''string''), (KStr ''format'', JStr ''uuid'')]
                  else JObj [(KStr ''type'', JStr p_type)])])"

definition get_params_in_path :: "string \<Rightarrow> json list" where
  "get_params_in_path name = map path_param (params_in_path name)"

text \<open>\<open>schema_to_query_params\<close>.\<close>

definition key_value :: "key \<Rightarrow> json" where
  "key_value k = (case k of KStr s \<Rightarrow> JStr s | KInt i \<Rightarrow> JInt (int i))"

fun query_params :: "pydict \<Rightarrow> py_error + json list" where
  "query_params [] = Inr []"
| "query_params ((k, w) # props) =
     ebind (py_pop w ''title'') (\<lambda>r1.
     ebind (py_contains ''required'' (snd r1)) (\<lambda>has_required.
     ebind (if has_required
            then ebind (py_pop (snd r1) ''required'') (\<lambda>r2.
                 Inr ([(KStr ''required'', fst r2)], snd r2))
            else Inr ([], snd r1)) (\<lambda>tw.
     ebind (query_params props) (\<lambda>others.
     Inr (JObj (fst tw @ [(KStr ''name'', key_value k), (KStr ''in'', JStr ''query''),
                          (KStr ''schema'', snd tw)]) # others)))))"

definition schema_to_query_params :: "json \<Rightarrow> py_error + json list" where
  "schema_to_query_params schema =
     ebind (py_getitem schema (KStr ''properties'')) (\<lambda>props.
       case props of JObj kvs \<Rightarrow> query_params kvs | _ \<Rightarrow> Inl AttributeError)"

subsection \<open>\<open>get_specs_for_path\<close>\<close>

text \<open>
  The calls that execute type expressions or build pydantic models, and what the sources
  read of objects beyond \<open>pyobj\<close>, are parameters of the model:
  \<^item> \<open>fget\<close>: the getter of a property, any other object itself;
  \<^item> \<open>request_annotated\<close>: \<open>"request" in redir_func.__annotations__\<close>;
  \<^item> \<open>infer_request_schema\<close>: \<open>infer_request_from_annotations\<close> and the \<open>schema()\<close> of
    its result (\<open>None\<close> when there is no annotation);
  \<^item> \<open>request_params\<close>, \<open>request_body\<close>, \<open>content_type\<close> and \<open>responses\<close>:
    \<open>get_request_params\<close>, \<open>get_request_body\<close>, the evaluation of the \<open>content-type\<close>
    entry and \<open>generate_responses\<close>;
  \<^item> \<open>error_text\<close>: the text of an exception with its traceback;
  \<^item> \<open>login_required\<close>: the \<open>__login_required__\<close> mark of a function or view class.
\<close>

record ext =
  fget :: "pyobj \<Rightarrow> pyobj"
  request_annotated :: "pyobj \<Rightarrow> py_error + bool"
  infer_request_schema :: "pyobj \<Rightarrow> py_error + json option"
  request_params :: "reqval \<Rightarrow> py_error + json list"
  request_body :: "reqval \<Rightarrow> pyobj \<Rightarrow> pyobj option \<Rightarrow> py_error + json"
  content_type :: "reqval \<Rightarrow> py_error + string"
  responses_of :: "pyobj \<Rightarrow> string \<Rightarrow> string \<Rightarrow> py_error + json"
  error_text :: "py_error \<Rightarrow> string"
  login_required :: "pyobj \<Rightarrow> bool"

text \<open>\<open>GoogleDocstring(func.__doc__ or "")\<close> inside \<open>try\<close>: any exception becomes a
  \<open>ValueError\<close>. The result is \<open>getattr(doc, "description", "")\<close>.\<close>

definition description_of :: "pyobj \<Rightarrow> py_error + string" where
  "description_of func =
     (case GoogleDocstring (case f_doc func of None \<Rightarrow> [] | Some d \<Rightarrow> d) of
        Inl e \<Rightarrow> Inl ValueError
      | Inr doc \<Rightarrow> Inr (case description doc of None \<Rightarrow> [] | Some d \<Rightarrow> d))"

definition truthy_schema :: "json option \<Rightarrow> bool" where
  "truthy_schema s = (case s of Some (JObj kvs) \<Rightarrow> kvs \<noteq> [] | _ \<Rightarrow> False)"

text \<open>What \<open>get_specs_for_path\<close> has computed when it reaches \<open>if "body" in request:\<close>.\<close>

record specs_state =
  ss_request :: "(string \<times> reqval) list"
  ss_redirect :: string
  ss_redir_func :: "pyobj option"
  ss_retval :: pydict

text \<open>The \<open>if redirect:\<close> statement: the redirect target, the description, the tags
  and the inferred request schema.\<close>

definition resolve_redirect ::
  "ext \<Rightarrow> python \<Rightarrow> world \<Rightarrow> string \<Rightarrow> pyobj \<Rightarrow> string list \<Rightarrow>
   py_error + (pyobj option \<times> string \<times> string list \<times> json option)" where
  "resolve_redirect x py w redirect method_func tags0 =
     (if redirect \<noteq> [] then
        (case fst (get_func_for_redirect py w redirect method_func) of
           None \<Rightarrow> Inl ValueError
         | Some redir_func \<Rightarrow>
             ebind (description_of redir_func) (\<lambda>descr.
             ebind (get_tags redir_func) (\<lambda>tags1.
             ebind (request_annotated x (fget x redir_func)) (\<lambda>annotated.
             if annotated then Inl NameError
             else
               ebind (infer_request_schema x (fget x redir_func)) (\<lambda>redir_schema.
               Inr (Some (fget x redir_func), descr, tags0 @ tags1, redir_schema))))))
      else
        ebind (description_of method_func) (\<lambda>descr. Inr (None, descr, tags0, None)))"

definition param_name :: "json \<Rightarrow> py_error + string" where
  "param_name p =
     ebind (py_getitem p (KStr ''name'')) (\<lambda>n. case n of JStr s \<Rightarrow> Inr s | _ \<Rightarrow> Inl TypeError)"

fun param_names :: "json list \<Rightarrow> py_error + string list" where
  "param_names [] = Inr []"
| "param_names (p # ps) =
     ebind (param_name p) (\<lambda>n. ebind (param_names ps) (\<lambda>ns. Inr (n # ns)))"

definition specs_prelude ::
  "ext \<Rightarrow> python \<Rightarrow> world \<Rightarrow> string \<Rightarrow> pyobj \<Rightarrow> string \<Rightarrow> bool \<Rightarrow> string \<Rightarrow>
   py_error + specs_state" where
  "specs_prelude x py w name method_func method gen_opid opid_template =
     ebind (check_function_redirect (f_doc method_func) name) (\<lambda>vr.
     ebind (get_requests method_func) (\<lambda>request.
     ebind (get_tags method_func) (\<lambda>tags0.
     ebind (resolve_redirect x py w (snd vr) method_func tags0) (\<lambda>r.
     case r of (redir_func, descr, all_tags, redir_schema) \<Rightarrow>
     ebind (if gen_opid
            then ebind (param_names (get_params_in_path name)) (\<lambda>ns.
                 ebind (get_opId name method_func redir_func ns method opid_template) (\<lambda>i.
                 Inr [(KStr ''operationId'', JStr i)]))
            else Inr []) (\<lambda>opid.
     ebind (case map_of request ''params'' of
              None \<Rightarrow> Inr (get_params_in_path name)
            | Some v \<Rightarrow> ebind (request_params x v) (\<lambda>ps. Inr (get_params_in_path name @ ps)))
       (\<lambda>parameters1.
     ebind (if snd vr \<noteq> [] \<and> truthy_schema redir_schema \<and> lower method = ''get''
            then ebind (schema_to_query_params (the redir_schema)) (\<lambda>qs.
                 Inr (parameters1 @ qs))
            else Inr parameters1) (\<lambda>parameters.
     Inr \<lparr>ss_request = request, ss_redirect = snd vr, ss_redir_func = redir_func,
          ss_retval =
            [(KStr ''description'', JStr descr)] @ opid @
            (if all_tags \<noteq> [] then [(KStr ''tags'', JList (map JStr all_tags))] else []) @
            (if snd vr \<noteq> [] \<and> truthy_schema redir_schema \<and> lower method = ''post''
             then [(KStr ''requestBody'', JObj [(KStr ''content'',
                     JObj [(KStr ''application/json'',
                       JObj [(KStr ''schema'', the redir_schema)])])])]
             else []) @
            (if parameters \<noteq> [] then [(KStr ''parameters'', JList parameters)] else [])\<rparr>)))))))"

text \<open>The end of \<open>get_specs_for_path\<close>: \<open>generate_responses\<close> inside \<open>try\<close>.\<close>

definition specs_responses ::
  "ext \<Rightarrow> string \<Rightarrow> string \<Rightarrow> pyobj \<Rightarrow> string \<Rightarrow> pydict \<Rightarrow> pydict \<times> (string \<times> string) option"
  where
  "specs_responses x name rule method_func redirect retval =
     (case responses_of x method_func name redirect of
        Inr rs \<Rightarrow> (dict_set retval (KStr ''responses'') rs, None)
      | Inl e \<Rightarrow> ([], Some (rule, error_text x e)))"

text \<open>\<open>body.pop("title", None)\<close>.\<close>

definition pop_default :: "json \<Rightarrow> string \<Rightarrow> py_error + json" where
  "pop_default v k =
     (case v of
        JObj kvs \<Rightarrow> Inr (JObj (dict_del kvs (KStr k)))
      | JList xs \<Rightarrow> Inl TypeError
      | _ \<Rightarrow> Inl AttributeError)"

definition get_specs_for_path ::
  "ext \<Rightarrow> python \<Rightarrow> world \<Rightarrow> string \<Rightarrow> string \<Rightarrow> pyobj \<Rightarrow> string \<Rightarrow> bool \<Rightarrow> string \<Rightarrow>
   py_error + (pydict \<times> (string \<times> string) option)" where
  "get_specs_for_path x py w name rule method_func method gen_opid opid_template =
     ebind (specs_prelude x py w name method_func method gen_opid opid_template) (\<lambda>s.
       case map_of (ss_request s) ''body'' of
         Some body_lines \<Rightarrow>
           if lower method = ''get'' then
             Inr ([], Some (rule, ''Request body cannot be in GET''))
           else if lower method = ''post'' then
             ebind (request_body x body_lines method_func (ss_redir_func s)) (\<lambda>body0.
             ebind (pop_default body0 ''title'') (\<lambda>body1.
             ebind (pop_default body1 ''description'') (\<lambda>body.
             ebind (case map_of (ss_request s) ''content-type'' of
                      Some ct \<Rightarrow> (case content_type x ct of
                                   Inl e \<Rightarrow> Inl ValueError | Inr c \<Rightarrow> Inr c)
                    | None \<Rightarrow> Inr ''application/json'') (\<lambda>ct.
             Inr (specs_responses x name rule method_func (ss_redirect s)
                    (dict_set
                       (dict_set (ss_retval s) (KStr ''requestBody'')
                          (JObj [(KStr ''content'',
                             JObj [(KStr ct, JObj [(KStr ''schema'', body)])])]))
                       (KStr ''x-codegen-request-body-name'') (JStr ''body'')))))))
           else
             Inr ([], Some (rule, ''Only methods GET and POST are supported''))
       | None \<Rightarrow>
           Inr (specs_responses x name rule method_func (ss_redirect s) (ss_retval s)))"

subsection \<open>\<open>make_paths\<close>\<close>

definition default_response :: json where
  "default_response =
     JObj [(KInt 200, JObj [(KStr ''content'', JObj [(KStr ''application/json'',
       JObj [(KStr ''schema'', JObj [(KStr ''type'', JStr ''object''),
                                    (KStr ''content'', JObj []),
                                    (KStr ''nullable'', JBool True)])])])])]"

text \<open>\<open>paths[newname][method.lower()] = v\<close>.\<close>

definition set_path :: "pydict \<Rightarrow> string \<Rightarrow> string \<Rightarrow> json \<Rightarrow> py_error + pydict" where
  "set_path paths newname method v =
     ebind (py_getitem (JObj paths) (KStr newname)) (\<lambda>entry.
     ebind (py_setitem entry (lower method) v) (\<lambda>entry'.
     Inr (dict_set paths (KStr newname) entry')))"

definition falsy :: "json \<Rightarrow> bool" where
  "falsy v = (v = JNull \<or> v = JBool False \<or> v = JInt 0 \<or> v = JStr [] \<or> v = JList [] \<or>
              v = JObj [])"

text \<open>
  What \<open>make_paths\<close> does with the result of \<open>get_specs_for_path\<close> for one rule and
  method: the paths and the errors after it.
\<close>

definition record_specs ::
  "pydict \<Rightarrow> (string \<times> string) list \<Rightarrow> string \<Rightarrow> string \<Rightarrow> string \<Rightarrow>
   pydict \<times> (string \<times> string) option \<Rightarrow> bool \<Rightarrow> py_error + (pydict \<times> (string \<times> string) list)"
  where
  "record_specs paths errors rule newname method result needs_login =
     (case snd result of
        Some error \<Rightarrow>
          ebind (set_path paths newname method default_response) (\<lambda>paths'.
          Inr (paths', errors @ [error]))
      | None \<Rightarrow>
          ebind (py_getitem (JObj (fst result)) (KStr ''responses'')) (\<lambda>rs.
          ebind (set_path paths newname method
                   (JObj (if needs_login then fst result
                          else dict_set (fst result) (KStr ''security'') (JList [])))) (\<lambda>paths'.
          Inr (paths', if falsy rs then errors @ [(rule, ''Got empty response spec'')]
                       else errors))))"

text \<open>\<open>newname\<close>: the rule with every \<open><type:name>\<close> written \<open>{name}\<close>.\<close>

definition openapi_name :: "string \<Rightarrow> string" where
  "openapi_name name =
     fold (\<lambda>param newname.
             replace (''<'' @ param @ ''>'')
               (''{'' @ (if length (split CHR '':'' param) > 1 then split CHR '':'' param ! 1
                          else param) @ ''}'') newname)
          (params_in_path name) name"

text \<open>
  One round of the loop over \<open>rule.methods\<close> where \<open>get_specs_for_path\<close> is called: for
  the method function \<open>method_func\<close> that \<open>make_paths\<close> selected, with
  \<open>paths[newname] = {}\<close> done before the loop.
\<close>

definition make_paths_method ::
  "ext \<Rightarrow> python \<Rightarrow> world \<Rightarrow> bool \<Rightarrow> string \<Rightarrow> string \<Rightarrow> pyobj \<Rightarrow> bool \<Rightarrow> string \<Rightarrow>
   pydict \<times> (string \<times> string) list \<Rightarrow> py_error + (pydict \<times> (string \<times> string) list)" where
  "make_paths_method x py w gen_opid opid_template name method_func view_class_login method
     state =
     ebind (get_specs_for_path x py w name name method_func (lower method) gen_opid
              opid_template) (\<lambda>result.
     record_specs (fst state) (snd state) name (openapi_name name) method result
       (login_required x method_func \<or> view_class_login))"

text \<open>A handler whose docstring has a request body, and parameters that answer nothing.\<close>

definition body_handler :: pyobj where
  "body_handler = PyObj ''app'' ''get_stuff'' ''get_stuff''
     (Some (''Request:'' @ [CHR 0x0A] @ ''    body:'' @ [CHR 0x0A] @ ''        x: int'')) []"

definition no_ext :: ext where
  "no_ext = \<lparr>fget = (\<lambda>f. f), request_annotated = (\<lambda>f. Inr False),
     infer_request_schema = (\<lambda>f. Inr None), request_params = (\<lambda>v. Inl NotModelled),
     request_body = (\<lambda>v f r. Inl NotModelled), content_type = (\<lambda>v. Inl NotModelled),
     responses_of = (\<lambda>f n r. Inl NotModelled), error_text = (\<lambda>e. []),
     login_required = (\<lambda>f. False)\<rparr>"

section \<open>Properties of the nullable annotation\<close>


lemma add_nullable_subroutine_steps:
  "add_nullable_subroutine f v pa =
     ebind (drop_null_type v) (\<lambda>v1.
     ebind (if allow_none f then mark_nullable (field_type f) v1 else Inr v1) (\<lambda>v2.
     ebind (walk_sub_fields (case sub_fields f of None \<Rightarrow> [] | Some fs \<Rightarrow> fs) v2 pa) (\<lambda>v3.
     ebind (args_step (args_field f) v3) (\<lambda>v4.
     ret_step (ret_field f) v4))))"
  by (cases f) (simp add: args_step_def ret_step_def cong: if_cong)

lemma map_of_dict_set:
  "map_of (dict_set kvs k v) k' = (if k' = k then Some v else map_of kvs k')"
  by (induction kvs) auto

lemma map_of_dict_del:
  "map_of (dict_del kvs k) k' = (if k' = k then None else map_of kvs k')"
  by (induction kvs) (auto simp: dict_del_def)

lemma py_getitem_KStr:
  "py_getitem v (KStr k) = Inr x \<longleftrightarrow> top_lookup v k = Some x"
  by (cases v) (auto simp: top_lookup_def split: option.splits)

lemma top_lookup_write_back:
  "k \<noteq> KStr k' \<Longrightarrow> top_lookup (write_back v k c) k' = top_lookup v k'"
  by (cases "(v, k, c)" rule: write_back.cases) (auto simp: top_lookup_def map_of_dict_set)

lemma top_lookup_write_back_same:
  "top_lookup v k = Some x \<Longrightarrow> top_lookup (write_back v (KStr k) c) k = Some c"
  by (cases v) (auto simp: top_lookup_def map_of_dict_set)

lemma py_setitem_Inr:
  "py_setitem v k x = Inr v' \<Longrightarrow>
     \<forall>k'. top_lookup v' k' = (if k' = k then Some x else top_lookup v k')"
  by (cases v) (auto simp: top_lookup_def map_of_dict_set)

lemma py_pop_Inr:
  "py_pop v k = Inr (x, w) \<Longrightarrow>
     \<forall>k'. top_lookup w k' = (if k' = k then None else top_lookup v k')"
  by (cases v) (auto simp: top_lookup_def map_of_dict_del split: option.splits)

lemma drop_null_type_cases:
  "drop_null_type v = Inr v' \<Longrightarrow> v' = v \<or> (\<exists>x. py_pop v ''type'' = Inr (x, v'))"
  by (auto simp: drop_null_type_def ebind_eq_Inr split: if_splits)

lemma drop_null_type_lookup:
  assumes "drop_null_type v = Inr v'" and "k \<noteq> ''type''"
  shows "top_lookup v' k = top_lookup v k"
  using drop_null_type_cases [OF assms(1)] assms(2) py_pop_Inr by fastforce

lemma mark_nullable_nullable:
  assumes "mark_nullable ty v = Inr v'"
  shows "top_lookup v' ''nullable'' = Some (JBool True)"
proof -
  from assms obtain v2 where "py_setitem v2 ''nullable'' (JBool True) = Inr v'"
    by (auto simp: mark_nullable_def ebind_eq_Inr)
  from py_setitem_Inr [OF this] show ?thesis by simp
qed

lemma mark_nullable_steps:
  "mark_nullable ty v = ebind (ref_to_anyOf ty v) (\<lambda>v2. py_setitem v2 ''nullable'' (JBool True))"
  by (simp add: mark_nullable_def)

lemma ref_to_anyOf_lookup:
  assumes "ref_to_anyOf ty v = Inr v'" and "k \<notin> {''title'', ''$ref'', ''anyOf''}"
  shows "top_lookup v' k = top_lookup v k"
proof (cases "py_contains ''$ref'' v = Inr True")
  case False
  with assms(1) show ?thesis
    by (auto simp: ref_to_anyOf_def ebind_eq_Inr split: if_splits)
next
  case True
  with assms(1) obtain m v1 x w where
    a: "(if m then py_setitem v ''title'' (JStr (model_title ty)) else Inr v) = Inr v1" and
    b: "py_pop v1 ''$ref'' = Inr (x, w)" and
    c: "py_setitem w ''anyOf'' (JList [JObj [(KStr ''$ref'', x)]]) = Inr v'"
    by (auto simp: ref_to_anyOf_def ebind_eq_Inr)
  have "top_lookup v1 k = top_lookup v k"
  proof (cases m)
    case True
    with a have "py_setitem v ''title'' (JStr (model_title ty)) = Inr v1" by simp
    from py_setitem_Inr [OF this] assms(2) show ?thesis by simp
  next
    case False
    with a show ?thesis by simp
  qed
  moreover have "top_lookup w k = top_lookup v1 k"
    using py_pop_Inr [OF b] assms(2) by simp
  moreover have "top_lookup v' k = top_lookup w k"
    using py_setitem_Inr [OF c] assms(2) by simp
  ultimately show ?thesis by simp
qed

lemma mark_nullable_lookup:
  assumes "mark_nullable ty v = Inr v'"
    and "k \<notin> {''title'', ''$ref'', ''anyOf'', ''nullable''}"
  shows "top_lookup v' k = top_lookup v k"
proof -
  from assms(1) obtain v2 where a: "ref_to_anyOf ty v = Inr v2"
    and b: "py_setitem v2 ''nullable'' (JBool True) = Inr v'"
    by (auto simp: mark_nullable_steps ebind_eq_Inr)
  from py_setitem_Inr [OF b] assms(2) have "top_lookup v' k = top_lookup v2 k" by simp
  with ref_to_anyOf_lookup [OF a] assms(2) show ?thesis by simp
qed

lemma sub_each_lookup:
  "sub_each k fs i v pa = Inr v' \<Longrightarrow> k' \<noteq> k \<Longrightarrow> top_lookup v' k' = top_lookup v k'"
proof (induction fs arbitrary: i v)
  case Nil
  then show ?case by simp
next
  case (Cons s ss)
  from Cons.prems(1) obtain cont c c' where
    rest: "sub_each k ss (Suc i) (write_back v (KStr k) (write_back cont (KInt i) c')) pa = Inr v'"
    by (auto simp: ebind_eq_Inr)
  from Cons.IH [OF rest Cons.prems(2)] Cons.prems(2) show ?case
    by (simp add: top_lookup_write_back)
qed

lemma sub_field_branch_keys:
  "sub_field_branch v pa = Inr (Some (k, e)) \<Longrightarrow>
     k \<in> {''additionalProperties'', ''properties'', ''anyOf'', ''items''}"
  by (auto simp: sub_field_branch_def ebind_eq_Inr split: if_splits)

lemma walk_sub_fields_lookup:
  assumes "walk_sub_fields fs v pa = Inr v'"
    and "k' \<notin> {''additionalProperties'', ''properties'', ''anyOf'', ''items''}"
  shows "top_lookup v' k' = top_lookup v k'"
proof (cases fs)
  case Nil
  with assms show ?thesis by simp
next
  case (Cons s0 ss)
  with assms(1) obtain br where br: "sub_field_branch v pa = Inr br"
    and body: "(case br of None \<Rightarrow> Inr v
       | Some (k, each) \<Rightarrow>
           if each then sub_each k (s0 # ss) 0 v pa
           else ebind (py_getitem v (KStr k)) (\<lambda>c.
                ebind (add_nullable_subroutine s0 c pa) (\<lambda>c'.
                Inr (write_back v (KStr k) c')))) = Inr v'"
    by (auto simp: ebind_eq_Inr)
  show ?thesis
  proof (cases br)
    case None
    with body show ?thesis by simp
  next
    case (Some ke)
    obtain k e where ke: "ke = (k, e)" by (cases ke)
    from br Some ke have "k \<in> {''additionalProperties'', ''properties'', ''anyOf'', ''items''}"
      using sub_field_branch_keys by blast
    with assms(2) have ne: "k' \<noteq> k" by blast
    show ?thesis
    proof (cases e)
      case True
      with body Some ke have "sub_each k (s0 # ss) 0 v pa = Inr v'" by simp
      from sub_each_lookup [OF this ne] show ?thesis .
    next
      case False
      with body Some ke obtain c' where "v' = write_back v (KStr k) c'"
        by (auto simp: ebind_eq_Inr)
      with ne show ?thesis by (simp add: top_lookup_write_back)
    qed
  qed
qed

lemma args_step_lookup:
  "args_step af v = Inr v' \<Longrightarrow> k' \<noteq> ''properties'' \<Longrightarrow> top_lookup v' k' = top_lookup v k'"
  by (auto simp: args_step_def ebind_eq_Inr top_lookup_write_back split: option.splits if_splits)

lemma ret_step_lookup:
  "ret_step rf v = Inr v' \<Longrightarrow> k' \<noteq> ''properties'' \<Longrightarrow> top_lookup v' k' = top_lookup v k'"
  by (auto simp: ret_step_def ebind_eq_Inr top_lookup_write_back split: option.splits)

lemma nullable_left_alone:
  assumes "add_nullable_subroutine f v pa = Inr v'" and "\<not> allow_none f"
  shows "top_lookup v' ''nullable'' = top_lookup v ''nullable''"
proof -
  from assms obtain v1 v3 v4 where
    s1: "drop_null_type v = Inr v1" and
    s3: "walk_sub_fields (case sub_fields f of None \<Rightarrow> [] | Some fs \<Rightarrow> fs) v1 pa = Inr v3" and
    s4: "args_step (args_field f) v3 = Inr v4" and
    s5: "ret_step (ret_field f) v4 = Inr v'"
    by (auto simp: add_nullable_subroutine_steps ebind_eq_Inr)
  have "top_lookup v' ''nullable'' = top_lookup v4 ''nullable''"
    using ret_step_lookup [OF s5] by simp
  also have "\<dots> = top_lookup v3 ''nullable''"
    using args_step_lookup [OF s4] by simp
  also have "\<dots> = top_lookup v1 ''nullable''"
    using walk_sub_fields_lookup [OF s3] by simp
  also have "\<dots> = top_lookup v ''nullable''"
    using drop_null_type_lookup [OF s1] by simp
  finally show ?thesis .
qed

lemma nullable_set_true:
  assumes "add_nullable_subroutine f v pa = Inr v'" and "allow_none f"
  shows "top_lookup v' ''nullable'' = Some (JBool True)"
proof -
  from assms obtain v1 v2 v3 v4 where
    s2: "mark_nullable (field_type f) v1 = Inr v2" and
    s3: "walk_sub_fields (case sub_fields f of None \<Rightarrow> [] | Some fs \<Rightarrow> fs) v2 pa = Inr v3" and
    s4: "args_step (args_field f) v3 = Inr v4" and
    s5: "ret_step (ret_field f) v4 = Inr v'"
    by (auto simp: add_nullable_subroutine_steps ebind_eq_Inr)
  have "top_lookup v' ''nullable'' = top_lookup v4 ''nullable''"
    using ret_step_lookup [OF s5] by simp
  also have "\<dots> = top_lookup v3 ''nullable''"
    using args_step_lookup [OF s4] by simp
  also have "\<dots> = top_lookup v2 ''nullable''"
    using walk_sub_fields_lookup [OF s3] by simp
  also have "\<dots> = Some (JBool True)"
    using mark_nullable_nullable [OF s2] .
  finally show ?thesis .
qed



lemma ret_step_props:
  assumes "ret_step rf v4 = Inr v'" and "top_lookup v4 ''properties'' = Some (JObj p)"
  shows "\<exists>p'. top_lookup v' ''properties'' = Some (JObj p') \<and>
           (\<forall>k. k \<noteq> KStr ''retval'' \<longrightarrow> map_of p' k = map_of p k)"
proof (cases rf)
  case None
  with assms show ?thesis by (simp add: ret_step_def)
next
  case (Some r)
  with assms obtain c' where "v' = write_back v4 (KStr ''properties'')
      (write_back (JObj p) (KStr ''retval'') c')"
    by (auto simp: ret_step_def ebind_eq_Inr py_getitem_KStr)
  with assms(2) show ?thesis
    by (simp add: top_lookup_write_back_same map_of_dict_set)
qed

lemma top_lookup_JObj [simp]: "top_lookup (JObj kvs) k = map_of kvs (KStr k)"
  by (simp add: top_lookup_def)

lemma py_getitem_JObj_D: "py_getitem p (KStr k) = Inr c \<Longrightarrow> \<exists>kvs. p = JObj kvs \<and> map_of kvs (KStr k) = Some c"
  by (cases p) (auto split: option.splits)

lemma py_pop_D: "py_pop p k = Inr (x, w) \<Longrightarrow> \<exists>kvs. p = JObj kvs \<and> w = JObj (dict_del kvs (KStr k))"
  by (cases p) (auto split: option.splits)

lemma py_setitem_D: "py_setitem p k x = Inr w \<Longrightarrow> \<exists>kvs. p = JObj kvs \<and> w = JObj (dict_set kvs (KStr k) x)"
  by (cases p) auto

lemma args_step_cases:
  assumes "args_step af v3 = Inr v4"
  shows "v4 = v3 \<or> (\<exists>p q. top_lookup v3 ''properties'' = Some (JObj p) \<and>
           v4 = write_back v3 (KStr ''properties'') (JObj q) \<and>
           (\<forall>k. k \<noteq> KStr ''args'' \<longrightarrow> map_of q k = map_of p k))"
proof (cases af)
  case None
  with assms show ?thesis by (simp add: args_step_def)
next
  case (Some a)
  show ?thesis
  proof (cases "sub_fields_is_tuple a \<and> sub_fields a = Some []")
    case True
    with assms Some obtain p0 x w where
      g: "py_getitem v3 (KStr ''properties'') = Inr p0" and
      pp: "py_pop p0 ''args'' = Inr (x, w)" and
      v4: "v4 = write_back v3 (KStr ''properties'') w"
      by (auto simp: args_step_def ebind_eq_Inr)
    from py_pop_D [OF pp] obtain kvs where "p0 = JObj kvs" "w = JObj (dict_del kvs (KStr ''args''))"
      by blast
    with g v4 show ?thesis by (auto simp: py_getitem_KStr map_of_dict_del)
  next
    case nz: False
    show ?thesis
    proof (cases "sub_fields a = None")
      case True
      with assms Some nz obtain p0 p1 where
        g: "py_getitem v3 (KStr ''properties'') = Inr p0" and
        pp: "py_setitem p0 ''args'' (JObj [(KStr ''type'', JStr ''object'')]) = Inr p1" and
        v4: "v4 = write_back v3 (KStr ''properties'') p1"
        by (auto simp: args_step_def ebind_eq_Inr)
      from py_setitem_D [OF pp] obtain kvs where "p0 = JObj kvs"
        "p1 = JObj (dict_set kvs (KStr ''args'') (JObj [(KStr ''type'', JStr ''object'')]))"
        by blast
      with g v4 show ?thesis by (auto simp: py_getitem_KStr map_of_dict_set)
    next
      case False
      with assms Some nz obtain p0 c c' where
        g: "py_getitem v3 (KStr ''properties'') = Inr p0" and
        pp: "py_getitem p0 (KStr ''args'') = Inr c" and
        v4: "v4 = write_back v3 (KStr ''properties'') (write_back p0 (KStr ''args'') c')"
        by (auto simp: args_step_def ebind_eq_Inr)
      from py_getitem_JObj_D [OF pp] obtain kvs where "p0 = JObj kvs" by blast
      with g v4 show ?thesis by (auto simp: py_getitem_KStr map_of_dict_set)
    qed
  qed
qed

lemma zero_args_dropped:
  assumes "add_nullable_subroutine f v pa = Inr v'"
    and "args_field f = Some a" and "sub_fields_is_tuple a" and "sub_fields a = Some []"
  shows "\<exists>p. py_getitem v' (KStr ''properties'') = Inr (JObj p) \<and> map_of p (KStr ''args'') = None"
proof -
  from assms(1) obtain v3 v4 where
    s4: "args_step (args_field f) v3 = Inr v4" and
    s5: "ret_step (ret_field f) v4 = Inr v'"
    by (auto simp: add_nullable_subroutine_steps ebind_eq_Inr)
  from s4 assms(2-4) obtain p0 x w where
    g: "top_lookup v3 ''properties'' = Some p0" and
    pp: "py_pop p0 ''args'' = Inr (x, w)" and
    v4: "v4 = write_back v3 (KStr ''properties'') w"
    by (auto simp: args_step_def ebind_eq_Inr py_getitem_KStr)
  from pp obtain kvs where w: "w = JObj (dict_del kvs (KStr ''args''))"
    by (cases p0) (auto split: option.splits)
  from g v4 w have "top_lookup v4 ''properties'' = Some (JObj (dict_del kvs (KStr ''args'')))"
    by (simp add: top_lookup_write_back_same)
  from ret_step_props [OF s5 this] obtain p' where
    "top_lookup v' ''properties'' = Some (JObj p')" "map_of p' (KStr ''args'') = None"
    by (auto simp: map_of_dict_del)
  then show ?thesis by (auto simp: py_getitem_KStr)
qed

lemma any_args_object:
  assumes "add_nullable_subroutine f v pa = Inr v'"
    and "args_field f = Some a" and "sub_fields a = None"
  shows "\<exists>p. py_getitem v' (KStr ''properties'') = Inr p \<and>
           py_getitem p (KStr ''args'') = Inr (JObj [(KStr ''type'', JStr ''object'')])"
proof -
  from assms(1) obtain v3 v4 where
    s4: "args_step (args_field f) v3 = Inr v4" and
    s5: "ret_step (ret_field f) v4 = Inr v'"
    by (auto simp: add_nullable_subroutine_steps ebind_eq_Inr)
  from s4 assms(2,3) obtain p0 p1 where
    g: "top_lookup v3 ''properties'' = Some p0" and
    pp: "py_setitem p0 ''args'' (JObj [(KStr ''type'', JStr ''object'')]) = Inr p1" and
    v4: "v4 = write_back v3 (KStr ''properties'') p1"
    by (auto simp: args_step_def ebind_eq_Inr py_getitem_KStr)
  from pp obtain kvs where
    p1: "p1 = JObj (dict_set kvs (KStr ''args'') (JObj [(KStr ''type'', JStr ''object'')]))"
    by (cases p0) auto
  from g v4 p1 have "top_lookup v4 ''properties'' =
      Some (JObj (dict_set kvs (KStr ''args'') (JObj [(KStr ''type'', JStr ''object'')])))"
    by (simp add: top_lookup_write_back_same)
  from ret_step_props [OF s5 this] obtain p' where
    "top_lookup v' ''properties'' = Some (JObj p')"
    "map_of p' (KStr ''args'') = Some (JObj [(KStr ''type'', JStr ''object'')])"
    by (auto simp: map_of_dict_set)
  then show ?thesis by (auto simp: py_getitem_KStr)
qed

lemma retval_walked:
  assumes "add_nullable_subroutine f v pa = Inr v'"
    and "sub_fields f = None \<or> sub_fields f = Some []" and "ret_field f = Some r"
  shows "\<exists>p c c' p'. py_getitem v (KStr ''properties'') = Inr p \<and>
           py_getitem p (KStr ''retval'') = Inr c \<and>
           add_nullable_subroutine r c True = Inr c' \<and>
           py_getitem v' (KStr ''properties'') = Inr p' \<and>
           py_getitem p' (KStr ''retval'') = Inr c'"
proof -
  from assms(1,2) obtain v1 v2 v4 where
    s1: "drop_null_type v = Inr v1" and
    s2: "(if allow_none f then mark_nullable (field_type f) v1 else Inr v1) = Inr v2" and
    s4: "args_step (args_field f) v2 = Inr v4" and
    s5: "ret_step (ret_field f) v4 = Inr v'"
    by (auto simp: add_nullable_subroutine_steps ebind_eq_Inr)
  from s5 assms(3) obtain p4 c c' where
    g4: "top_lookup v4 ''properties'' = Some p4" and
    gc: "py_getitem p4 (KStr ''retval'') = Inr c" and
    rc: "add_nullable_subroutine r c True = Inr c'" and
    v': "v' = write_back v4 (KStr ''properties'') (write_back p4 (KStr ''retval'') c')"
    by (auto simp: ret_step_def ebind_eq_Inr py_getitem_KStr)
  from gc obtain kvs where p4: "p4 = JObj kvs" by (cases p4) auto
  have out: "py_getitem v' (KStr ''properties'') = Inr (JObj (dict_set kvs (KStr ''retval'') c'))"
    using g4 v' p4 by (simp add: py_getitem_KStr top_lookup_write_back_same)
  have out2: "py_getitem (JObj (dict_set kvs (KStr ''retval'') c')) (KStr ''retval'') = Inr c'"
    by (simp add: map_of_dict_set)
  have l12: "top_lookup v2 ''properties'' = top_lookup v ''properties''"
  proof -
    have "top_lookup v2 ''properties'' = top_lookup v1 ''properties''"
      using s2 mark_nullable_lookup [of "field_type f" v1 v2 "''properties''"]
      by (auto split: if_splits)
    with drop_null_type_lookup [OF s1, of "''properties''"] show ?thesis by simp
  qed
  have "\<exists>p. top_lookup v2 ''properties'' = Some p \<and> py_getitem p (KStr ''retval'') = Inr c"
  proof -
    from args_step_cases [OF s4] consider "v4 = v2"
      | p q where "top_lookup v2 ''properties'' = Some (JObj p)"
          "v4 = write_back v2 (KStr ''properties'') (JObj q)"
          "\<forall>k. k \<noteq> KStr ''args'' \<longrightarrow> map_of q k = map_of p k"
      by blast
    then show ?thesis
    proof cases
      case 1
      with g4 gc show ?thesis by simp
    next
      case 2
      from 2(1,2) have "top_lookup v4 ''properties'' = Some (JObj q)"
        by (simp add: top_lookup_write_back_same)
      with g4 p4 have "q = kvs" by simp
      moreover from gc p4 have "map_of kvs (KStr ''retval'') = Some c"
        by (auto split: option.splits)
      moreover from 2(3) have "map_of q (KStr ''retval'') = map_of p (KStr ''retval'')"
        by simp
      ultimately have "map_of p (KStr ''retval'') = Some c" by simp
      then have "py_getitem (JObj p) (KStr ''retval'') = Inr c" by simp
      with 2(1) show ?thesis by blast
    qed
  qed
  then obtain p where "py_getitem v (KStr ''properties'') = Inr p"
    "py_getitem p (KStr ''retval'') = Inr c"
    using l12 by (auto simp: py_getitem_KStr)
  with rc out out2 show ?thesis by blast
qed


lemma YourModel_annotated:
  "add_nullable YourModel_raw_schema YourModel_fields = Inr YourModel_schema"
  by code_simp

lemma callable_no_args_annotated:
  "add_nullable_subroutine (callable_field (Some [])) (callable_raw []) True =
     Inr (JObj [(KStr ''title'', JStr ''Func''), (KStr ''type'', JStr ''object''),
                (KStr ''x-type'', JStr ''function''),
                (KStr ''properties'', JObj [(KStr ''retval'', JObj [(KStr ''nullable'', JBool True)])])])"
  by code_simp

lemma callable_any_args_annotated:
  "add_nullable_subroutine (callable_field None) (callable_raw []) True =
     Inr (JObj [(KStr ''title'', JStr ''Func''), (KStr ''type'', JStr ''object''),
                (KStr ''x-type'', JStr ''function''),
                (KStr ''properties'', JObj
                   [(KStr ''args'', JObj [(KStr ''type'', JStr ''object'')]),
                    (KStr ''retval'', JObj [(KStr ''nullable'', JBool True)])])])"
  by code_simp

lemma callable_two_ints_annotated:
  "add_nullable_subroutine
     (callable_field (Some [leaf_field False, leaf_field False])) (callable_raw two_int_args) True =
     Inr (JObj [(KStr ''title'', JStr ''Func''), (KStr ''type'', JStr ''object''),
                (KStr ''x-type'', JStr ''function''),
                (KStr ''properties'', JObj
                   [(KStr ''args'', JObj [(KStr ''type'', JStr ''object''),
                                          (KStr ''properties'', JObj two_int_args)]),
                    (KStr ''retval'', JObj [(KStr ''nullable'', JBool True)])])])"
  by code_simp

text \<open>
  C1. Under \<open>models.BaseModel\<close>, whose \<open>schema_extra\<close> runs \<open>add_nullable\<close>: the property of
  a \<open>Union[int, Optional[str]]\<close> field keeps its \<open>anyOf\<close> list and gets \<open>nullable: true\<close>
  at the union's own level; the property of a \<open>Union[int, Dict[str, Optional[int]]]\<close> field
  keeps \<open>anyOf\<close> and has no \<open>nullable\<close> key at the top nor on the dict alternative, whose
  \<open>additionalProperties\<close> carries \<open>nullable: true\<close>. In general a node whose field allows
  none gets \<open>nullable: true\<close>, and on a node whose field does not allow none the
  \<open>nullable\<close> key is left as it was (absent when it was absent, never written as false).
\<close>

theorem union_nullability:
  "(\<exists>out. add_nullable YourModel_raw_schema YourModel_fields = Inr out \<and>
      at_path (JObj out) [KStr ''properties'', KStr ''str_int_union'', KStr ''anyOf''] =
        Some (JList [JObj [(KStr ''type'', JStr ''integer'')],
                     JObj [(KStr ''type'', JStr ''string'')]]) \<and>
      at_path (JObj out) [KStr ''properties'', KStr ''str_int_union'', KStr ''nullable''] =
        Some (JBool True) \<and>
      (\<exists>alts. at_path (JObj out) [KStr ''properties'', KStr ''obj_int_union'', KStr ''anyOf''] =
        Some (JList alts)) \<and>
      at_path (JObj out) [KStr ''properties'', KStr ''obj_int_union'', KStr ''nullable''] = None \<and>
      at_path (JObj out) [KStr ''properties'', KStr ''obj_int_union'', KStr ''anyOf'', KInt 1,
        KStr ''nullable''] = None \<and>
      at_path (JObj out) [KStr ''properties'', KStr ''obj_int_union'', KStr ''anyOf'', KInt 1,
        KStr ''additionalProperties'', KStr ''nullable''] = Some (JBool True)) \<and>
   (\<forall>f v pa v'. add_nullable_subroutine f v pa = Inr v' \<longrightarrow> allow_none f \<longrightarrow>
      top_lookup v' ''nullable'' = Some (JBool True)) \<and>
   (\<forall>f v pa v'. add_nullable_subroutine f v pa = Inr v' \<longrightarrow> \<not> allow_none f \<longrightarrow>
      top_lookup v' ''nullable'' = top_lookup v ''nullable'')"
proof (intro conjI allI impI)
  show "\<exists>out. add_nullable YourModel_raw_schema YourModel_fields = Inr out \<and>
      at_path (JObj out) [KStr ''properties'', KStr ''str_int_union'', KStr ''anyOf''] =
        Some (JList [JObj [(KStr ''type'', JStr ''integer'')],
                     JObj [(KStr ''type'', JStr ''string'')]]) \<and>
      at_path (JObj out) [KStr ''properties'', KStr ''str_int_union'', KStr ''nullable''] =
        Some (JBool True) \<and>
      (\<exists>alts. at_path (JObj out) [KStr ''properties'', KStr ''obj_int_union'', KStr ''anyOf''] =
        Some (JList alts)) \<and>
      at_path (JObj out) [KStr ''properties'', KStr ''obj_int_union'', KStr ''nullable''] = None \<and>
      at_path (JObj out) [KStr ''properties'', KStr ''obj_int_union'', KStr ''anyOf'', KInt 1,
        KStr ''nullable''] = None \<and>
      at_path (JObj out) [KStr ''properties'', KStr ''obj_int_union'', KStr ''anyOf'', KInt 1,
        KStr ''additionalProperties'', KStr ''nullable''] = Some (JBool True)"
    by (rule exI [of _ YourModel_schema])
       (simp add: YourModel_annotated, simp add: YourModel_schema_def)
next
  fix f v pa v'
  assume "add_nullable_subroutine f v pa = Inr v'" "allow_none f"
  then show "top_lookup v' ''nullable'' = Some (JBool True)"
    by (rule nullable_set_true)
next
  fix f v pa v'
  assume "add_nullable_subroutine f v pa = Inr v'" "\<not> allow_none f"
  then show "top_lookup v' ''nullable'' = top_lookup v ''nullable''"
    by (rule nullable_left_alone)
qed

theorem union_nullability_witness:
  "add_nullable_subroutine (leaf_field True) (JObj [(KStr ''type'', JStr ''string'')]) False =
     Inr (JObj [(KStr ''type'', JStr ''string''), (KStr ''nullable'', JBool True)]) \<and>
   allow_none (leaf_field True) \<and>
   top_lookup (JObj [(KStr ''type'', JStr ''string''), (KStr ''nullable'', JBool True)])
     ''nullable'' = Some (JBool True) \<and>
   add_nullable_subroutine (leaf_field False) (JObj [(KStr ''type'', JStr ''integer'')]) False =
     Inr (JObj [(KStr ''type'', JStr ''integer'')]) \<and>
   \<not> allow_none (leaf_field False) \<and>
   top_lookup (JObj [(KStr ''type'', JStr ''integer'')]) ''nullable'' = None"
proof -
  have a: "add_nullable_subroutine (leaf_field True) (JObj [(KStr ''type'', JStr ''string'')]) False =
     Inr (JObj [(KStr ''type'', JStr ''string''), (KStr ''nullable'', JBool True)])"
    by code_simp
  have b: "add_nullable_subroutine (leaf_field False) (JObj [(KStr ''type'', JStr ''integer'')])
     False = Inr (JObj [(KStr ''type'', JStr ''integer'')])"
    by code_simp
  have an: "allow_none (leaf_field True)" "\<not> allow_none (leaf_field False)"
    by (simp_all add: leaf_field_def)
  from union_nullability have
    t: "\<And>f v pa v'. add_nullable_subroutine f v pa = Inr v' \<Longrightarrow> allow_none f \<Longrightarrow>
          top_lookup v' ''nullable'' = Some (JBool True)" and
    n: "\<And>f v pa v'. add_nullable_subroutine f v pa = Inr v' \<Longrightarrow> \<not> allow_none f \<Longrightarrow>
          top_lookup v' ''nullable'' = top_lookup v ''nullable''"
    by blast+
  from t [OF a an(1)] n [OF b an(2)] a b an show ?thesis
    by (simp add: top_lookup_def)
qed

text \<open>
  C2. For a callable field: an empty argument list removes the \<open>args\<close> property; an
  any-arguments callable gets \<open>args: {type: object}\<close> and nothing more; the node of
  \<open>Callable[[int, int], None]\<close> keeps \<open>args.properties\<close> keyed \<open>0\<close> and \<open>1\<close>, each
  \<open>{type: integer}\<close>; and a return descriptor is walked into \<open>retval\<close>: the \<open>retval\<close> of
  the result is the annotated \<open>retval\<close> of the input.
\<close>

theorem callable_encoding:
  "(\<forall>f v pa v' a. add_nullable_subroutine f v pa = Inr v' \<longrightarrow> args_field f = Some a \<longrightarrow>
      sub_fields_is_tuple a \<longrightarrow> sub_fields a = Some [] \<longrightarrow>
      (\<exists>p. py_getitem v' (KStr ''properties'') = Inr (JObj p) \<and>
           map_of p (KStr ''args'') = None)) \<and>
   (\<forall>f v pa v' a. add_nullable_subroutine f v pa = Inr v' \<longrightarrow> args_field f = Some a \<longrightarrow>
      sub_fields a = None \<longrightarrow>
      (\<exists>p. py_getitem v' (KStr ''properties'') = Inr p \<and>
           py_getitem p (KStr ''args'') = Inr (JObj [(KStr ''type'', JStr ''object'')]))) \<and>
   (\<exists>out. add_nullable_subroutine (callable_field (Some [leaf_field False, leaf_field False]))
             (callable_raw two_int_args) True = Inr out \<and>
      at_path out [KStr ''properties'', KStr ''args'', KStr ''properties''] =
        Some (JObj [(KInt 0, JObj [(KStr ''type'', JStr ''integer'')]),
                    (KInt 1, JObj [(KStr ''type'', JStr ''integer'')])])) \<and>
   (\<forall>f v pa v' r. add_nullable_subroutine f v pa = Inr v' \<longrightarrow>
      (sub_fields f = None \<or> sub_fields f = Some []) \<longrightarrow> ret_field f = Some r \<longrightarrow>
      (\<exists>p c c' p'. py_getitem v (KStr ''properties'') = Inr p \<and>
           py_getitem p (KStr ''retval'') = Inr c \<and>
           add_nullable_subroutine r c True = Inr c' \<and>
           py_getitem v' (KStr ''properties'') = Inr p' \<and>
           py_getitem p' (KStr ''retval'') = Inr c'))"
proof (intro conjI allI impI)
  fix f v pa v' a
  assume "add_nullable_subroutine f v pa = Inr v'" "args_field f = Some a"
    "sub_fields_is_tuple a" "sub_fields a = Some []"
  then show "\<exists>p. py_getitem v' (KStr ''properties'') = Inr (JObj p) \<and>
           map_of p (KStr ''args'') = None"
    by (rule zero_args_dropped)
next
  fix f v pa v' a
  assume "add_nullable_subroutine f v pa = Inr v'" "args_field f = Some a" "sub_fields a = None"
  then show "\<exists>p. py_getitem v' (KStr ''properties'') = Inr p \<and>
           py_getitem p (KStr ''args'') = Inr (JObj [(KStr ''type'', JStr ''object'')])"
    by (rule any_args_object)
next
  show "\<exists>out. add_nullable_subroutine (callable_field (Some [leaf_field False, leaf_field False]))
             (callable_raw two_int_args) True = Inr out \<and>
      at_path out [KStr ''properties'', KStr ''args'', KStr ''properties''] =
        Some (JObj [(KInt 0, JObj [(KStr ''type'', JStr ''integer'')]),
                    (KInt 1, JObj [(KStr ''type'', JStr ''integer'')])])"
    by (rule exI, rule conjI, rule callable_two_ints_annotated) (simp add: two_int_args_def)
next
  fix f v pa v' r
  assume "add_nullable_subroutine f v pa = Inr v'"
    "sub_fields f = None \<or> sub_fields f = Some []" "ret_field f = Some r"
  then show "\<exists>p c c' p'. py_getitem v (KStr ''properties'') = Inr p \<and>
           py_getitem p (KStr ''retval'') = Inr c \<and>
           add_nullable_subroutine r c True = Inr c' \<and>
           py_getitem v' (KStr ''properties'') = Inr p' \<and>
           py_getitem p' (KStr ''retval'') = Inr c'"
    by (rule retval_walked)
qed

theorem callable_encoding_witness:
  "(\<exists>v'. add_nullable_subroutine (callable_field (Some [])) (callable_raw []) True = Inr v' \<and>
      args_field (callable_field (Some [])) = Some (Field False NotAClass (Some []) True None None) \<and>
      (\<exists>p. py_getitem v' (KStr ''properties'') = Inr (JObj p) \<and>
           map_of p (KStr ''args'') = None)) \<and>
   (\<exists>v'. add_nullable_subroutine (callable_field None) (callable_raw []) True = Inr v' \<and>
      args_field (callable_field None) = Some (Field False NotAClass None True None None) \<and>
      (\<exists>p. py_getitem v' (KStr ''properties'') = Inr p \<and>
           py_getitem p (KStr ''args'') = Inr (JObj [(KStr ''type'', JStr ''object'')]))) \<and>
   (\<exists>v'. add_nullable_subroutine (callable_field None) (callable_raw []) True = Inr v' \<and>
      sub_fields (callable_field None) = None \<and>
      ret_field (callable_field None) = Some (leaf_field True) \<and>
      add_nullable_subroutine (leaf_field True) (JObj [(KStr ''type'', JStr ''null'')]) True =
        Inr (JObj [(KStr ''nullable'', JBool True)]) \<and>
      (\<exists>p'. py_getitem v' (KStr ''properties'') = Inr p' \<and>
           py_getitem p' (KStr ''retval'') = Inr (JObj [(KStr ''nullable'', JBool True)])))"
proof -
  let ?z = "Field False NotAClass (Some []) True None None"
  let ?n = "Field False NotAClass None True None None"
  have fz: "args_field (callable_field (Some [])) = Some ?z"
    and fn: "args_field (callable_field None) = Some ?n"
    and sn: "sub_fields (callable_field None) = None \<or> sub_fields (callable_field None) = Some []"
    and rn: "ret_field (callable_field None) = Some (leaf_field True)"
    by (simp_all add: callable_field_def)
  have r: "add_nullable_subroutine (leaf_field True) (JObj [(KStr ''type'', JStr ''null'')]) True =
        Inr (JObj [(KStr ''nullable'', JBool True)])"
    by code_simp
  from callable_encoding have
    z: "\<And>f v pa v' a. add_nullable_subroutine f v pa = Inr v' \<Longrightarrow> args_field f = Some a \<Longrightarrow>
      sub_fields_is_tuple a \<Longrightarrow> sub_fields a = Some [] \<Longrightarrow>
      (\<exists>p. py_getitem v' (KStr ''properties'') = Inr (JObj p) \<and>
           map_of p (KStr ''args'') = None)" and
    n: "\<And>f v pa v' a. add_nullable_subroutine f v pa = Inr v' \<Longrightarrow> args_field f = Some a \<Longrightarrow>
      sub_fields a = None \<Longrightarrow>
      (\<exists>p. py_getitem v' (KStr ''properties'') = Inr p \<and>
           py_getitem p (KStr ''args'') = Inr (JObj [(KStr ''type'', JStr ''object'')]))" and
    w: "\<And>f v pa v' r. add_nullable_subroutine f v pa = Inr v' \<Longrightarrow>
      (sub_fields f = None \<or> sub_fields f = Some []) \<Longrightarrow> ret_field f = Some r \<Longrightarrow>
      (\<exists>p c c' p'. py_getitem v (KStr ''properties'') = Inr p \<and>
           py_getitem p (KStr ''retval'') = Inr c \<and>
           add_nullable_subroutine r c True = Inr c' \<and>
           py_getitem v' (KStr ''properties'') = Inr p' \<and>
           py_getitem p' (KStr ''retval'') = Inr c')"
    by blast+
  have 1: "\<exists>p. py_getitem (JObj [(KStr ''title'', JStr ''Func''), (KStr ''type'', JStr ''object''),
                (KStr ''x-type'', JStr ''function''),
                (KStr ''properties'', JObj [(KStr ''retval'', JObj [(KStr ''nullable'', JBool True)])])])
              (KStr ''properties'') = Inr (JObj p) \<and> map_of p (KStr ''args'') = None"
    using z [OF callable_no_args_annotated fz] by simp
  have 2: "\<exists>p. py_getitem (JObj [(KStr ''title'', JStr ''Func''), (KStr ''type'', JStr ''object''),
                (KStr ''x-type'', JStr ''function''),
                (KStr ''properties'', JObj
                   [(KStr ''args'', JObj [(KStr ''type'', JStr ''object'')]),
                    (KStr ''retval'', JObj [(KStr ''nullable'', JBool True)])])])
              (KStr ''properties'') = Inr p \<and>
           py_getitem p (KStr ''args'') = Inr (JObj [(KStr ''type'', JStr ''object'')])"
    using n [OF callable_any_args_annotated fn] by simp
  have 3: "\<exists>p c c' p'. py_getitem (callable_raw []) (KStr ''properties'') = Inr p \<and>
           py_getitem p (KStr ''retval'') = Inr c \<and>
           add_nullable_subroutine (leaf_field True) c True = Inr c' \<and>
           py_getitem (JObj [(KStr ''title'', JStr ''Func''), (KStr ''type'', JStr ''object''),
                (KStr ''x-type'', JStr ''function''),
                (KStr ''properties'', JObj
                   [(KStr ''args'', JObj [(KStr ''type'', JStr ''object'')]),
                    (KStr ''retval'', JObj [(KStr ''nullable'', JBool True)])])])
             (KStr ''properties'') = Inr p' \<and>
           py_getitem p' (KStr ''retval'') = Inr c'"
    using w [OF callable_any_args_annotated sn rn] .
  have s0: "sub_fields (callable_field None) = None"
    by (simp add: callable_field_def)
  have 4: "\<exists>p'. py_getitem (JObj [(KStr ''title'', JStr ''Func''), (KStr ''type'', JStr ''object''),
                (KStr ''x-type'', JStr ''function''),
                (KStr ''properties'', JObj
                   [(KStr ''args'', JObj [(KStr ''type'', JStr ''object'')]),
                    (KStr ''retval'', JObj [(KStr ''nullable'', JBool True)])])])
             (KStr ''properties'') = Inr p' \<and>
           py_getitem p' (KStr ''retval'') = Inr (JObj [(KStr ''nullable'', JBool True)])"
    using 3 r by (auto simp: callable_raw_def)
  have c1: "\<exists>v'. add_nullable_subroutine (callable_field (Some [])) (callable_raw []) True = Inr v' \<and>
      args_field (callable_field (Some [])) = Some ?z \<and>
      (\<exists>p. py_getitem v' (KStr ''properties'') = Inr (JObj p) \<and>
           map_of p (KStr ''args'') = None)"
    using callable_no_args_annotated fz 1 by blast
  have c2: "\<exists>v'. add_nullable_subroutine (callable_field None) (callable_raw []) True = Inr v' \<and>
      args_field (callable_field None) = Some ?n \<and>
      (\<exists>p. py_getitem v' (KStr ''properties'') = Inr p \<and>
           py_getitem p (KStr ''args'') = Inr (JObj [(KStr ''type'', JStr ''object'')]))"
    using callable_any_args_annotated fn 2 by blast
  have c3: "\<exists>v'. add_nullable_subroutine (callable_field None) (callable_raw []) True = Inr v' \<and>
      sub_fields (callable_field None) = None \<and>
      ret_field (callable_field None) = Some (leaf_field True) \<and>
      add_nullable_subroutine (leaf_field True) (JObj [(KStr ''type'', JStr ''null'')]) True =
        Inr (JObj [(KStr ''nullable'', JBool True)]) \<and>
      (\<exists>p'. py_getitem v' (KStr ''properties'') = Inr p' \<and>
           py_getitem p' (KStr ''retval'') = Inr (JObj [(KStr ''nullable'', JBool True)]))"
    using callable_any_args_annotated s0 rn r 4 by blast
  from c1 c2 c3 show ?thesis by blast
qed

section \<open>Properties of the section parser\<close>

subsection \<open>Section headers\<close>

lemma section_names_start:
  "\<forall>n \<in> set (map fst sections). n \<noteq> [] \<and> \<not> isspace (hd n) \<and> hd n \<noteq> CHR '':''"
  by code_simp

lemma strip_chars_hd:
  assumes "strip_chars cs s = n" and "n \<noteq> []"
  shows "s \<noteq> [] \<and> (hd s \<in> set cs \<or> hd s = hd n)"
proof -
  have s: "s \<noteq> []" using assms by (auto simp: strip_chars_def rstrip_chars_def lstrip_chars_def)
  show ?thesis
  proof (cases "hd s \<in> set cs")
    case True
    with s show ?thesis by simp
  next
    case False
    with s have d: "dropWhile (\<lambda>c. c \<in> set cs) s = s" by (cases s) auto
    from assms d have n: "n = rev (dropWhile (\<lambda>c. c \<in> set cs) (rev s))"
      by (simp add: strip_chars_def rstrip_chars_def lstrip_chars_def)
    have "rev s = takeWhile (\<lambda>c. c \<in> set cs) (rev s) @ dropWhile (\<lambda>c. c \<in> set cs) (rev s)"
      by simp
    then have "s = rev (dropWhile (\<lambda>c. c \<in> set cs) (rev s)) @
                   rev (takeWhile (\<lambda>c. c \<in> set cs) (rev s))"
      by (metis rev_append rev_rev_ident)
    with n have "s = n @ rev (takeWhile (\<lambda>c. c \<in> set cs) (rev s))" by simp
    with assms(2) have "hd s = hd n" by (metis hd_append2)
    with s show ?thesis by simp
  qed
qed

text \<open>
  Where a line passes the name test, the indentation \<open>_is_section_header\<close> takes for the
  header is \<open>0\<close>, whatever the indentation of the line: the line is a header as soon as
  the next non-empty line is indented at all.
\<close>

lemma header_indent_is_zero:
  assumes "strip_chars '':'' section \<in> set (map fst sections)"
  shows "get_indent section = 0"
proof -
  from assms section_names_start have
    n: "strip_chars '':'' section \<noteq> []" "\<not> isspace (hd (strip_chars '':'' section))"
    by blast+
  from strip_chars_hd [OF refl n(1)] n(2)
  have "section \<noteq> []" and "\<not> isspace (hd section)"
    by (auto simp: isspace_def)
  then show ?thesis by (cases "section") (auto simp: get_indent_def)
qed

lemma is_section_header_iff:
  "is_section_header l after \<longleftrightarrow>
     re_match google_section_regex (strip_chars '' '' (lower l)) \<noteq> None \<and>
     strip_chars '':'' (strip_chars '' '' (lower l)) \<in> set (map fst sections) \<and>
     0 < get_current_indent after"
  by (auto simp: is_section_header_def Let_def header_indent_is_zero)

text \<open>
  C3 fails on the code. The line \<open>Args:\<close> indented by four columns, followed by a line
  indented by two, is taken for a section header, although the following line is not
  indented deeper than the header line.
\<close>

theorem section_header_below_own_indent:
  "is_section_header ''    Args:'' [''  x: int''] \<and>
   get_indent ''    Args:'' = 4 \<and> get_current_indent [''  x: int''] = 2"
  by code_simp

subsection \<open>The description\<close>

text \<open>
  C4 fails on the code. The docstring begins directly with the header \<open>Attributes:\<close>; its
  only field is empty, so the section renders nothing, and the text after the section
  becomes the description.
\<close>

theorem description_after_empty_section:
  "is_section_header ''Attributes:'' [''  :'', ''foo''] \<and>
   GoogleDocstring (''Attributes:'' @ [CHR 0x0A] @ ''  :'' @ [CHR 0x0A] @ ''foo'') =
     Inr (empty_doc\<lparr>description := Some ''foo''\<rparr>)"
  by code_simp

lemma no_section_headers_dropWhile:
  "no_section_headers ls \<Longrightarrow> no_section_headers (dropWhile P ls)"
  by (induction ls) auto

lemma consume_to_break_no_headers:
  "no_section_headers ls \<Longrightarrow> consume_to_break False 0 ls = (ls, [])"
  by (induction ls) (auto simp: is_section_break_def)

lemma consume_contiguous_no_headers:
  "no_section_headers ls \<Longrightarrow>
     consume_contiguous ls = (takeWhile (\<lambda>x. x \<noteq> []) ls, dropWhile (\<lambda>x. x \<noteq> []) ls)"
  by (induction ls) auto

lemma parse_loop_no_headers:
  assumes "no_section_headers ls"
  shows "parse_loop True doc ls = Inr doc"
proof (cases ls)
  case Nil
  then show ?thesis by simp
next
  case (Cons l after)
  from assms have "no_section_headers (snd (consume_empty ls))"
    by (simp add: consume_empty_def no_section_headers_dropWhile)
  then have "consume_to_next_section False 0 ls =
             (snd (consume_empty ls), [])"
    by (simp add: consume_to_next_section_def consume_to_break_no_headers consume_empty_def)
  with assms Cons have "parse_step True doc l after = Inr (True, doc, [])"
    by (simp add: parse_step_def)
  with Cons show ?thesis by simp
qed

lemma empty_doc_no_description: "empty_doc\<lparr>description := None\<rparr> = empty_doc"
  by (simp add: empty_doc_def)

lemma no_headers_description:
  assumes "no_section_headers (map rstrip ls)"
  shows "GoogleDocstring_lines ls =
           Inr (empty_doc\<lparr>description := first_block_description (map rstrip ls)\<rparr>)"
proof (cases "map rstrip ls")
  case Nil
  then show ?thesis
    by (simp add: GoogleDocstring_lines_def consume_empty_def first_block_description_def
          empty_doc_no_description)
next
  case (Cons l after)
  show ?thesis
  proof (cases "l = []")
    case True
    obtain e left where ce: "consume_empty (map rstrip ls) = (e, left)"
      by (cases "consume_empty (map rstrip ls)")
    with Cons True have "e \<noteq> []"
      by (auto simp: consume_empty_def)
    moreover from assms ce have "no_section_headers left"
      by (auto simp: consume_empty_def no_section_headers_dropWhile)
    ultimately have "parse_loop (e \<noteq> []) empty_doc left = Inr empty_doc"
      by (simp add: parse_loop_no_headers)
    with ce Cons True show ?thesis
      by (simp add: GoogleDocstring_lines_def first_block_description_def
               empty_doc_no_description)
  next
    case False
    let ?ls = "l # after"
    let ?taken = "takeWhile (\<lambda>x. x \<noteq> []) ?ls"
    let ?left = "dropWhile (\<lambda>x. x \<noteq> []) ?ls"
    let ?doc = "empty_doc\<lparr>description :=
      Some (join '' '' (map lstrip (?taken @ takeWhile (\<lambda>x. x = []) ?left)))\<rparr>"
    from assms Cons have nh: "no_section_headers ?ls" by simp
    from False have ce: "consume_empty ?ls = ([], ?ls)" by (simp add: consume_empty_def)
    from nh have h: "\<not> is_section_header l after" by simp
    have cc: "consume_contiguous ?ls = (?taken, ?left)"
      using consume_contiguous_no_headers [OF nh] .
    have ne: "?taken @ fst (consume_empty ?left) \<noteq> []" using False by simp
    have step: "parse_step False empty_doc l after =
                  Inr (True, ?doc, snd (consume_empty ?left))"
      unfolding parse_step_def using h cc ne
      by (simp add: Let_def consume_empty_def del: consume_contiguous.simps takeWhile.simps
            dropWhile.simps)
    have "no_section_headers (snd (consume_empty ?left))"
      using nh by (simp add: consume_empty_def no_section_headers_dropWhile
          del: no_section_headers.simps dropWhile.simps)
    then have "parse_loop True ?doc (snd (consume_empty ?left)) = Inr ?doc"
      by (rule parse_loop_no_headers)
    with step have "parse_loop False empty_doc ?ls = Inr ?doc"
      by (simp del: takeWhile.simps dropWhile.simps)
    with Cons ce False show ?thesis
      by (simp add: GoogleDocstring_lines_def first_block_description_def
            del: takeWhile.simps dropWhile.simps)
  qed
qed

lemma specified_header_is_section_header:
  "specified_header l after \<Longrightarrow> is_section_header l after"
  by (auto simp: specified_header_def has_section_name_def is_section_header_iff Let_def)

lemma no_section_headers_iff:
  "no_section_headers ls \<longleftrightarrow> no_specified_headers ls \<and> no_misjudged_headers ls"
  by (induction ls) (auto dest: specified_header_is_section_header)

text \<open>
  C5, as the spec states it, fails: the docstring of the three lines \<open>a\<close>, an empty line
  and \<open>b\<close> has no section header, and its description is \<open>a\<close> followed by one space:
  the first block of text with the empty line after it, not the whole stripped text.
\<close>

theorem description_full_text_counterexample:
  "no_specified_headers (map rstrip (splitlines (''a'' @ [CHR 0x0A, CHR 0x0A] @ ''b''))) \<and>
   GoogleDocstring (''a'' @ [CHR 0x0A, CHR 0x0A] @ ''b'') =
     Inr (empty_doc\<lparr>description := Some ''a ''\<rparr>) \<and>
   description (empty_doc\<lparr>description := Some ''a ''\<rparr>) \<noteq>
     Some (strip (''a'' @ [CHR 0x0A, CHR 0x0A] @ ''b''))"
proof -
  have "no_specified_headers (map rstrip (splitlines (''a'' @ [CHR 0x0A, CHR 0x0A] @ ''b'')))"
    by code_simp
  moreover have "GoogleDocstring (''a'' @ [CHR 0x0A, CHR 0x0A] @ ''b'') =
      Inr (empty_doc\<lparr>description := Some ''a ''\<rparr>)"
    by code_simp
  moreover have "strip (''a'' @ [CHR 0x0A, CHR 0x0A] @ ''b'') \<noteq> ''a ''"
    by code_simp
  ultimately show ?thesis by simp
qed

text \<open>
  C5, amended. For every docstring that has no section header in the words of the
  specification, and in which \<open>_is_section_header\<close> takes no line for a header that is
  none (as it does under C3 for an indented line that names a section), the description is
  the first block of text (its lines without their leading whitespace, and the empty lines
  after them, joined by single spaces), it is absent when the docstring is empty or starts
  with an empty line, and no section attribute is set.
\<close>

theorem description_without_headers:
  assumes "no_specified_headers (map rstrip (splitlines docstring))"
    and "no_misjudged_headers (map rstrip (splitlines docstring))"
  shows "GoogleDocstring docstring =
           Inr (empty_doc\<lparr>description :=
                  first_block_description (map rstrip (splitlines docstring))\<rparr>)"
proof -
  from assms have "no_section_headers (map rstrip (splitlines docstring))"
    by (simp add: no_section_headers_iff)
  then show ?thesis
    unfolding GoogleDocstring_def by (rule no_headers_description)
qed

theorem description_without_headers_witness:
  "no_specified_headers (map rstrip (splitlines (''a'' @ [CHR 0x0A] @ ''  Note:'' @
     [CHR 0x0A] @ ''b''))) \<and>
   no_misjudged_headers (map rstrip (splitlines (''a'' @ [CHR 0x0A] @ ''  Note:'' @
     [CHR 0x0A] @ ''b''))) \<and>
   GoogleDocstring (''a'' @ [CHR 0x0A] @ ''  Note:'' @ [CHR 0x0A] @ ''b'') =
     Inr (empty_doc\<lparr>description := Some ''a Note: b''\<rparr>)"
proof -
  have h: "no_specified_headers (map rstrip (splitlines (''a'' @ [CHR 0x0A] @ ''  Note:'' @
     [CHR 0x0A] @ ''b'')))"
    by code_simp
  have m: "no_misjudged_headers (map rstrip (splitlines (''a'' @ [CHR 0x0A] @ ''  Note:'' @
     [CHR 0x0A] @ ''b'')))"
    by code_simp
  have "first_block_description (map rstrip (splitlines (''a'' @ [CHR 0x0A] @ ''  Note:'' @
     [CHR 0x0A] @ ''b''))) = Some ''a Note: b''"
    by code_simp
  with description_without_headers [OF h m] h m show ?thesis by simp
qed

text \<open>
  The second hypothesis is needed. In the docstring below the line \<open>Returns:\<close> is indented
  as deep as the line after it, so it is no section header in the words of the
  specification; \<open>_is_section_header\<close> takes it for one, and the \<open>returns\<close> attribute is
  set.
\<close>

lemma indented_name_taken_for_header:
  "no_specified_headers (map rstrip (splitlines (''Summary.'' @ [CHR 0x0A, CHR 0x0A] @
     ''    Returns:'' @ [CHR 0x0A] @ ''    A list of things.''))) \<and>
   \<not> no_misjudged_headers (map rstrip (splitlines (''Summary.'' @ [CHR 0x0A, CHR 0x0A] @
     ''    Returns:'' @ [CHR 0x0A] @ ''    A list of things.''))) \<and>
   GoogleDocstring (''Summary.'' @ [CHR 0x0A, CHR 0x0A] @ ''    Returns:'' @ [CHR 0x0A] @
     ''    A list of things.'') =
     Inr (empty_doc\<lparr>description := Some ''Summary. '',
                      returns := Some (ReturnsLines [''A list of things.''])\<rparr>)"
proof -
  have "no_specified_headers (map rstrip (splitlines (''Summary.'' @ [CHR 0x0A, CHR 0x0A] @
     ''    Returns:'' @ [CHR 0x0A] @ ''    A list of things.'')))"
    by code_simp
  moreover have "\<not> no_misjudged_headers (map rstrip (splitlines (''Summary.'' @
     [CHR 0x0A, CHR 0x0A] @ ''    Returns:'' @ [CHR 0x0A] @ ''    A list of things.'')))"
    by code_simp
  moreover have "GoogleDocstring (''Summary.'' @ [CHR 0x0A, CHR 0x0A] @ ''    Returns:'' @
     [CHR 0x0A] @ ''    A list of things.'') =
     Inr (empty_doc\<lparr>description := Some ''Summary. '',
                      returns := Some (ReturnsLines [''A list of things.''])\<rparr>)"
    by code_simp
  ultimately show ?thesis by simp
qed

subsection \<open>Exceptions\<close>

text \<open>
  C7 fails on the code. A \<open>Returns\<close> section whose only line starts with \<open>see\<close> leaves
  \<open>_consume_returns_section\<close> without a return value, and the constructor raises
  \<open>TypeError\<close>; a \<open>Responses\<close> entry without a colon raises \<open>ValueError\<close>; a \<open>Map\<close>
  section with an empty body raises \<open>IndexError\<close>; an \<open>Other Parameters\<close> section before
  any parameters raises \<open>AttributeError\<close>.
\<close>

theorem constructor_raises:
  "GoogleDocstring (''Returns:'' @ [CHR 0x0A] @ ''    see :func:`foo`'') = Inl TypeError \<and>
   GoogleDocstring (''Responses:'' @ [CHR 0x0A] @ ''    foo'') = Inl ValueError \<and>
   GoogleDocstring (''Map:'' @ [CHR 0x0A] @ ''    Args:'' @ [CHR 0x0A] @ ''        x: y'') =
     Inl IndexError \<and>
   GoogleDocstring (''Other Parameters:'' @ [CHR 0x0A] @ ''    x: y'') = Inl AttributeError"
  by code_simp

section \<open>Properties of the operation id\<close>

lemma opid_groups_default:
  "opid_groups [(''%m'', CStr m), (''%c'', CStr []), (''%f'', CStr ''bleh_annot''),
                (''%r'', CStr []), (''%n'', CStr ''get_stuff''),
                (''%p'', CList [''task_id'', ''op_id'']), (''%h'', CStr ''GET'')]
     (re_findall bracket_regex ''[__%C%f%r%n]_[_%p]_%H'') ''[__%C%f%r%n]_[_%p]_%H'' =
   Inr ''bleh_annot__get_stuff_task_id_op_id_%H''"
  by code_simp

lemma opid_method_default:
  "template_subroutine ''bleh_annot__get_stuff_task_id_op_id_%H''
     [(''%m'', CStr m), (''%c'', CStr []), (''%f'', CStr ''bleh_annot''),
      (''%r'', CStr []), (''%n'', CStr ''get_stuff''),
      (''%p'', CList [''task_id'', ''op_id'']), (''%h'', CStr ''GET'')] [] =
   Inr ''bleh_annot__get_stuff_task_id_op_id_GET''"
  by code_simp

lemma opid_guards_default:
  "str_contains ''%f'' ''[__%C%f%r%n]_[_%p]_%H''"
  "str_contains ''%n'' ''[__%C%f%r%n]_[_%p]_%H''"
  "\<not> str_contains ''[['' (filter (\<lambda>c. c = CHR ''['' \<or> c = CHR '']'') ''[__%C%f%r%n]_[_%p]_%H'')"
  "split CHR ''.'' ''bleh_annot'' = [''bleh_annot'']"
  by code_simp+

lemma opid_default:
  assumes "f_name func = ''bleh_annot''" and "f_qualname func = ''bleh_annot''"
    and "camel_case (f_module func) = Inr m"
    and "last (split CHR ''/'' name) = ''get_stuff''"
  shows "get_opId name func None [''task_id'', ''op_id''] ''GET'' ''[__%C%f%r%n]_[_%p]_%H'' =
           Inr ''bleh_annot__get_stuff_task_id_op_id_GET''"
  unfolding get_opId_def Let_def
  using assms opid_guards_default
  by (simp add: opid_groups_default opid_method_default)

lemma bleh_annot_facts:
  "f_name bleh_annot = ''bleh_annot''" "f_qualname bleh_annot = ''bleh_annot''"
  "camel_case (f_module bleh_annot) = Inr ''tests.Functions''"
  "last (split CHR ''/'' ''/path/get_stuff'') = ''get_stuff''"
  by (simp add: bleh_annot_def, simp add: bleh_annot_def, code_simp, code_simp)

text \<open>
  C8, as the spec states it, fails: with the template \<open>[__%C%f%r%n]_[_%p]_%H\<close> the groups
  are joined by the single underscores of the template, not by double ones.
\<close>

theorem opid_default_template_counterexample:
  "get_opId ''/path/get_stuff'' bleh_annot None [''task_id'', ''op_id''] ''GET''
     ''[__%C%f%r%n]_[_%p]_%H'' \<noteq> Inr ''bleh_annot__get_stuff__task_id_op_id__GET''"
  by (simp add: opid_default [OF bleh_annot_facts])

text \<open>
  C8, amended. \<open>get_opId\<close> with the template \<open>[__%C%f%r%n]_[_%p]_%H\<close>, for a plain function
  named \<open>bleh_annot\<close> (no class, no redirect, any module whose name gives a camel-case
  token), a route whose basename is \<open>get_stuff\<close>, the parameters \<open>task_id\<close> and \<open>op_id\<close>
  and the method \<open>GET\<close>, returns exactly \<open>bleh_annot__get_stuff_task_id_op_id_GET\<close>.
\<close>

theorem opid_default_template:
  assumes "f_name func = ''bleh_annot''" and "f_qualname func = ''bleh_annot''"
    and "camel_case (f_module func) = Inr m"
    and "last (split CHR ''/'' name) = ''get_stuff''"
  shows "get_opId name func None [''task_id'', ''op_id''] ''GET'' ''[__%C%f%r%n]_[_%p]_%H'' =
           Inr ''bleh_annot__get_stuff_task_id_op_id_GET''"
  using assms by (rule opid_default)

theorem opid_default_template_witness:
  "f_name bleh_annot = ''bleh_annot'' \<and> f_qualname bleh_annot = ''bleh_annot'' \<and>
   camel_case (f_module bleh_annot) = Inr ''tests.Functions'' \<and>
   last (split CHR ''/'' ''/path/get_stuff'') = ''get_stuff'' \<and>
   get_opId ''/path/get_stuff'' bleh_annot None [''task_id'', ''op_id''] ''GET''
     ''[__%C%f%r%n]_[_%p]_%H'' = Inr ''bleh_annot__get_stuff_task_id_op_id_GET''"
  using opid_default_template [OF bleh_annot_facts] bleh_annot_facts by simp
section \<open>Properties of the redirect resolution\<close>







text \<open>
  C6 fails on the code. The function \<open>bleh\<close> of the dotted module \<open>tests.functions\<close>
  redirects to \<open>bleh_redirect\<close> of the same module, which is loaded; the registry is
  empty. The third attempt looks up \<open>functions.bleh_redirect\<close>, a name that the module
  bound under \<open>tests.functions\<close> does not answer, and the call returns \<open>None\<close>. The order
  of the specification goes on to the imported module object and finds the function
  there.
\<close>

theorem dotted_module_function_missed:
  "fst (get_func_for_redirect example_python (loaded_only ''tests.functions'') ''bleh_redirect''
          (fn_in ''tests.functions'' ''bleh'')) = None \<and>
   sys_modules (loaded_only ''tests.functions'') ''tests.functions'' =
     Some (module_of ''tests.functions'') \<and>
   getattr (module_of ''tests.functions'') ''bleh_redirect'' =
     Inr (fn_in ''tests.functions'' ''bleh_redirect'') \<and>
   resolve_as_specified example_python (loaded_only ''tests.functions'') ''bleh_redirect''
     (fn_in ''tests.functions'' ''bleh'') = Some (fn_in ''tests.functions'' ''bleh_redirect'')"
proof -
  have "fst (get_func_for_redirect example_python (loaded_only ''tests.functions'')
     ''bleh_redirect'' (fn_in ''tests.functions'' ''bleh'')) = None"
    by code_simp
  moreover have "sys_modules (loaded_only ''tests.functions'') ''tests.functions'' =
     Some (module_of ''tests.functions'')"
    by (simp add: loaded_only_def)
  moreover have "getattr (module_of ''tests.functions'') ''bleh_redirect'' =
     Inr (fn_in ''tests.functions'' ''bleh_redirect'')"
    by code_simp
  moreover have "resolve_as_specified example_python (loaded_only ''tests.functions'')
     ''bleh_redirect'' (fn_in ''tests.functions'' ''bleh'') =
     Some (fn_in ''tests.functions'' ''bleh_redirect'')"
    by code_simp
  ultimately show ?thesis by simp
qed




section \<open>Properties of the path specification\<close>

lemma ebind_InrE:
  assumes "ebind m f = Inr y"
  obtains x where "m = Inr x" and "f x = Inr y"
  using assms by (auto simp: ebind_eq_Inr)

lemma specs_prelude_request:
  assumes "specs_prelude x py w name method_func method gen_opid opid_template = Inr s"
  shows "get_requests method_func = Inr (ss_request s)"
  using assms unfolding specs_prelude_def
  apply (elim ebind_InrE)
  apply (simp only: split_paired_all prod.case)
  apply (elim ebind_InrE)
  apply auto
  done

lemma body_in_get_result:
  assumes "get_requests method_func = Inr request" and "map_of request ''body'' \<noteq> None"
    and "lower method = ''get''"
    and "get_specs_for_path x py w name rule method_func method gen_opid opid_template =
           Inr result"
  shows "result = ([], Some (rule, ''Request body cannot be in GET''))"
  using assms unfolding get_specs_for_path_def
  apply (elim ebind_InrE)
  apply (drule specs_prelude_request)
  apply auto
  done

lemma body_in_get_eq:
  assumes "get_requests method_func = Inr request" and "map_of request ''body'' \<noteq> None"
    and "lower method = ''get''"
  shows "get_specs_for_path x py w name rule method_func method gen_opid opid_template =
         ebind (specs_prelude x py w name method_func method gen_opid opid_template)
           (\<lambda>s. Inr ([], Some (rule, ''Request body cannot be in GET'')))"
proof (cases "specs_prelude x py w name method_func method gen_opid opid_template")
  case (Inl e)
  then show ?thesis by (simp add: get_specs_for_path_def)
next
  case (Inr s)
  from specs_prelude_request [OF Inr] assms(1) have "ss_request s = request" by simp
  with assms(2) obtain body_lines where "map_of (ss_request s) ''body'' = Some body_lines"
    by auto
  with Inr assms(3) show ?thesis by (simp add: get_specs_for_path_def)
qed

lemma body_in_get_installed:
  assumes "get_requests method_func = Inr request" and "map_of request ''body'' \<noteq> None"
    and "lower method = ''get''"
    and "specs_prelude x py w name method_func (lower method) gen_opid opid_template = Inr s"
    and "map_of paths (KStr (openapi_name name)) = Some (JObj entry)"
  shows "make_paths_method x py w gen_opid opid_template name method_func view_class_login
           method (paths, errors) =
         Inr (dict_set paths (KStr (openapi_name name))
                (JObj (dict_set entry (KStr (lower method)) default_response)),
              errors @ [(name, ''Request body cannot be in GET'')])"
proof -
  have l: "lower (lower method) = ''get''"
    unfolding assms(3) by code_simp
  have "get_specs_for_path x py w name name method_func (lower method) gen_opid opid_template =
          Inr ([], Some (name, ''Request body cannot be in GET''))"
    unfolding body_in_get_eq [OF assms(1,2) l] assms(4) by simp
  with assms(5) show ?thesis
    by (simp add: make_paths_method_def record_specs_def set_path_def)
qed

lemma set_path_at:
  assumes "set_path paths newname method v = Inr paths'"
  shows "at_path (JObj paths') [KStr newname, KStr (lower method)] = Some v"
proof -
  from assms obtain entry entry' where
    "py_setitem entry (lower method) v = Inr entry'" and
    p: "paths' = dict_set paths (KStr newname) entry'"
    by (auto simp: set_path_def ebind_eq_Inr)
  then obtain kvs where "entry' = JObj (dict_set kvs (KStr (lower method)) v)"
    by (cases entry) auto
  with p show ?thesis by (simp add: map_of_dict_set)
qed

lemma body_in_get_recorded:
  assumes "get_requests method_func = Inr request" and "map_of request ''body'' \<noteq> None"
    and "lower method = ''get''"
    and "make_paths_method x py w gen_opid opid_template name method_func view_class_login
           method (paths, errors) = Inr (paths', errors')"
  shows "errors' = errors @ [(name, ''Request body cannot be in GET'')] \<and>
         at_path (JObj paths') [KStr (openapi_name name), KStr (lower method)] =
           Some default_response"
proof -
  from assms(4) obtain result where
    g: "get_specs_for_path x py w name name method_func (lower method) gen_opid opid_template =
          Inr result" and
    r: "record_specs paths errors name (openapi_name name) method result
          (login_required x method_func \<or> view_class_login) = Inr (paths', errors')"
    by (auto simp: make_paths_method_def ebind_eq_Inr)
  have l: "lower (lower method) = ''get''"
    unfolding assms(3) by code_simp
  from body_in_get_result [OF assms(1,2) l g]
  have "result = ([], Some (name, ''Request body cannot be in GET''))" .
  with r obtain "set_path paths (openapi_name name) method default_response = Inr paths'"
    and "errors' = errors @ [(name, ''Request body cannot be in GET'')]"
    by (auto simp: record_specs_def ebind_eq_Inr)
  with set_path_at show ?thesis by blast
qed

lemma prelude_raised:
  assumes "specs_prelude x py w name method_func (lower method) gen_opid opid_template = Inl e"
  shows "make_paths_method x py w gen_opid opid_template name method_func view_class_login
           method state = Inl e"
  using assms by (simp add: make_paths_method_def get_specs_for_path_def)

lemma body_handler_prelude_raises:
  "specs_prelude no_ext example_python (loaded_only ''app'') ''/stuff'' body_handler (lower ''GET'')
     True [] = Inl ValueError"
  by code_simp

lemma body_handler_requests:
  "get_requests body_handler = Inr [(''body'', RLines [''x: int''])]"
  by code_simp

lemma body_handler_prelude_lower:
  "specs_prelude no_ext example_python (loaded_only ''app'') ''/stuff'' body_handler (lower ''GET'')
     False [] =
   Inr \<lparr>ss_request = [(''body'', RLines [''x: int''])], ss_redirect = [],
        ss_redir_func = None, ss_retval = [(KStr ''description'', JStr [])]\<rparr>"
  by code_simp

lemma body_handler_entry:
  "map_of [(KStr ''/stuff'', JObj [])] (KStr (openapi_name ''/stuff'')) = Some (JObj [])"
  by code_simp

lemma body_handler_installed:
  "dict_set [(KStr ''/stuff'', JObj [])] (KStr (openapi_name ''/stuff''))
     (JObj (dict_set [] (KStr (lower ''GET'')) default_response)) =
   [(KStr ''/stuff'', JObj [(KStr ''get'', default_response)])]"
  by code_simp

text \<open>
  C10, as stated, fails where it says that \<open>get_specs_for_path\<close> does not raise: the
  steps before the test for a request body can raise. With \<open>gen_opid\<close> set and the empty
  template that \<open>openapi_spec\<close> has by default, \<open>get_opId\<close> raises \<open>ValueError\<close> for a
  handler whose request section has a body.
\<close>

theorem body_in_get_counterexample:
  "get_requests body_handler = Inr [(''body'', RLines [''x: int''])] \<and>
   get_specs_for_path no_ext example_python (loaded_only ''app'') ''/stuff'' ''/stuff'' body_handler
     ''get'' True [] = Inl ValueError"
  by code_simp

text \<open>
  C10, amended. Where the request section of the handler's docstring has a \<open>body\<close> entry
  and the method is GET, \<open>get_specs_for_path\<close> raises what the steps before the test for
  a body raise (\<open>specs_prelude\<close>), and where they raise nothing it returns the empty spec
  with the error \<open>Request body cannot be in GET\<close> for the rule. In the round of
  \<open>make_paths\<close> for that rule and method, an exception of those steps leaves \<open>make_paths\<close>
  too; where they raise nothing and \<open>paths[newname]\<close> is the dict set before the loop, the
  round appends the error to the errors and installs the default response under the path
  and the method; and whenever the round returns, this is what it has done.
\<close>

theorem body_in_get:
  assumes "get_requests method_func = Inr request" and "map_of request ''body'' \<noteq> None"
    and "lower method = ''get''"
  shows "get_specs_for_path x py w name rule method_func method gen_opid opid_template =
           ebind (specs_prelude x py w name method_func method gen_opid opid_template)
             (\<lambda>s. Inr ([], Some (rule, ''Request body cannot be in GET''))) \<and>
         (\<forall>e state.
            specs_prelude x py w name method_func (lower method) gen_opid opid_template =
              Inl e \<longrightarrow>
            make_paths_method x py w gen_opid opid_template name method_func view_class_login
              method state = Inl e) \<and>
         (\<forall>s paths errors entry.
            specs_prelude x py w name method_func (lower method) gen_opid opid_template =
              Inr s \<and>
            map_of paths (KStr (openapi_name name)) = Some (JObj entry) \<longrightarrow>
            make_paths_method x py w gen_opid opid_template name method_func view_class_login
              method (paths, errors) =
            Inr (dict_set paths (KStr (openapi_name name))
                   (JObj (dict_set entry (KStr (lower method)) default_response)),
                 errors @ [(name, ''Request body cannot be in GET'')])) \<and>
         (\<forall>paths errors paths' errors'.
            make_paths_method x py w gen_opid opid_template name method_func view_class_login
              method (paths, errors) = Inr (paths', errors') \<longrightarrow>
            errors' = errors @ [(name, ''Request body cannot be in GET'')] \<and>
            at_path (JObj paths') [KStr (openapi_name name), KStr (lower method)] =
              Some default_response)"
proof (intro conjI allI impI)
  from assms show "get_specs_for_path x py w name rule method_func method gen_opid
      opid_template =
    ebind (specs_prelude x py w name method_func method gen_opid opid_template)
      (\<lambda>s. Inr ([], Some (rule, ''Request body cannot be in GET'')))"
    by (rule body_in_get_eq)
next
  fix e state
  assume "specs_prelude x py w name method_func (lower method) gen_opid opid_template = Inl e"
  then show "make_paths_method x py w gen_opid opid_template name method_func
      view_class_login method state = Inl e"
    by (rule prelude_raised)
next
  fix s paths errors entry
  assume "specs_prelude x py w name method_func (lower method) gen_opid opid_template =
            Inr s \<and>
          map_of paths (KStr (openapi_name name)) = Some (JObj entry)"
  then have "specs_prelude x py w name method_func (lower method) gen_opid opid_template =
      Inr s"
    and "map_of paths (KStr (openapi_name name)) = Some (JObj entry)"
    by simp_all
  with assms show "make_paths_method x py w gen_opid opid_template name method_func
      view_class_login method (paths, errors) =
    Inr (dict_set paths (KStr (openapi_name name))
           (JObj (dict_set entry (KStr (lower method)) default_response)),
         errors @ [(name, ''Request body cannot be in GET'')])"
    by (rule body_in_get_installed)
next
  fix paths errors paths' errors'
  assume "make_paths_method x py w gen_opid opid_template name method_func view_class_login
            method (paths, errors) = Inr (paths', errors')"
  with assms show "errors' = errors @ [(name, ''Request body cannot be in GET'')]"
    by (rule body_in_get_recorded [THEN conjunct1])
next
  fix paths errors paths' errors'
  assume "make_paths_method x py w gen_opid opid_template name method_func view_class_login
            method (paths, errors) = Inr (paths', errors')"
  with assms show "at_path (JObj paths') [KStr (openapi_name name), KStr (lower method)] =
      Some default_response"
    by (rule body_in_get_recorded [THEN conjunct2])
qed

theorem body_in_get_witness:
  "get_requests body_handler = Inr [(''body'', RLines [''x: int''])] \<and>
   map_of [(''body'', RLines [''x: int''])] ''body'' \<noteq> None \<and>
   lower ''GET'' = ''get'' \<and>
   specs_prelude no_ext example_python (loaded_only ''app'') ''/stuff'' body_handler (lower ''GET'')
     True [] = Inl ValueError \<and>
   make_paths_method no_ext example_python (loaded_only ''app'') True [] ''/stuff'' body_handler
     False ''GET'' ([(KStr ''/stuff'', JObj [])], []) = Inl ValueError \<and>
   specs_prelude no_ext example_python (loaded_only ''app'') ''/stuff'' body_handler (lower ''GET'')
     False [] =
     Inr \<lparr>ss_request = [(''body'', RLines [''x: int''])], ss_redirect = [],
          ss_redir_func = None, ss_retval = [(KStr ''description'', JStr [])]\<rparr> \<and>
   map_of [(KStr ''/stuff'', JObj [])] (KStr (openapi_name ''/stuff'')) = Some (JObj []) \<and>
   make_paths_method no_ext example_python (loaded_only ''app'') False [] ''/stuff'' body_handler
     False ''GET'' ([(KStr ''/stuff'', JObj [])], []) =
     Inr ([(KStr ''/stuff'', JObj [(KStr ''get'', default_response)])],
          [(''/stuff'', ''Request body cannot be in GET'')]) \<and>
   at_path (JObj [(KStr ''/stuff'', JObj [(KStr ''get'', default_response)])])
     [KStr (openapi_name ''/stuff''), KStr (lower ''GET'')] = Some default_response"
proof -
  have b: "map_of [(''body'', RLines [''x: int''])] ''body'' \<noteq> None" by simp
  have l: "lower ''GET'' = ''get''" by code_simp
  note t = body_in_get [OF body_handler_requests b l]
  from t [THEN conjunct2, THEN conjunct1, rule_format, OF body_handler_prelude_raises]
  have r: "make_paths_method no_ext example_python (loaded_only ''app'') True [] ''/stuff''
      body_handler False ''GET'' ([(KStr ''/stuff'', JObj [])], []) = Inl ValueError" .
  from t [THEN conjunct2, THEN conjunct2, THEN conjunct1, rule_format,
      OF conjI [OF body_handler_prelude_lower body_handler_entry]]
  have m: "make_paths_method no_ext example_python (loaded_only ''app'') False [] ''/stuff''
      body_handler False ''GET'' ([(KStr ''/stuff'', JObj [])], []) =
    Inr ([(KStr ''/stuff'', JObj [(KStr ''get'', default_response)])],
         [(''/stuff'', ''Request body cannot be in GET'')])"
    unfolding body_handler_installed by simp
  from t [THEN conjunct2, THEN conjunct2, THEN conjunct2, rule_format, OF m]
  have "at_path (JObj [(KStr ''/stuff'', JObj [(KStr ''get'', default_response)])])
       [KStr (openapi_name ''/stuff''), KStr (lower ''GET'')] = Some default_response"
    by (rule conjunct2)
  with body_handler_requests b l body_handler_prelude_raises r body_handler_prelude_lower
    body_handler_entry m
  show ?thesis
    by (intro conjI)
qed

end
